theory Spec2Isabelle
  imports Main
begin

section \<open>Data model of \<open>examples/reasoning_function_calls.ipynb\<close>\<close>

text \<open>
  The notebook talks to a remote completion service and to local tool functions.
  Both are outside the notebook, and both may answer differently each time they are
  asked (\<open>get_city_uuid\<close> draws a fresh \<open>uuid4()\<close>). They are therefore
  modelled as functions that read and change a state of the outside world, of an
  arbitrary type \<open>'w\<close>, which every call receives and returns.

  A raised exception is a value: its class name and the text \<open>str(e)\<close>. The
  handler of \<open>invoke_functions_from_response\<close> is \<open>except Exception\<close>, so the
  model keeps apart an exception of class \<open>Exception\<close> or of a subclass
  (\<open>Exception\<close>), which the handler catches, and one outside that class
  (\<open>BaseException\<close>: \<open>SystemExit\<close>, \<open>KeyboardInterrupt\<close>,
  \<open>GeneratorExit\<close>), which it lets pass. A call to a tool or to
  \<open>json.loads\<close> ends by returning or by raising; a tool that never returns is not
  part of the model.
\<close>

datatype exn =
    Exception (exn_class: string) (exn_str: string)
  | BaseException (exn_class: string) (exn_str: string)

text \<open>
  The items of \<open>response.output\<close>. The notebook reads \<open>type\<close>, and of a
  \<open>function_call\<close> item \<open>arguments\<close>, \<open>call_id\<close> and \<open>name\<close>; of a
  \<open>reasoning\<close> item \<open>summary\<close>. An item of any other type (the service also
  defines search and computer calls) matches none of the notebook's tests.
\<close>

datatype other_kind = FileSearchCall | WebSearchCall | ComputerCall

datatype response_item =
    ReasoningItem (item_id: string) (summary: "string list")
  | FunctionToolCall (arguments: string) (call_id: string) (name: string) (item_id: string)
  | OutputMessage (item_id: string) (content: "string list")
  | OtherItem (other: other_kind) (item_id: string)

fun other_type :: "other_kind \<Rightarrow> string" where
  "other_type FileSearchCall = ''file_search_call''"
| "other_type WebSearchCall = ''web_search_call''"
| "other_type ComputerCall = ''computer_call''"

fun item_type :: "response_item \<Rightarrow> string" where
  "item_type (ReasoningItem i s) = ''reasoning''"
| "item_type (FunctionToolCall a c n i) = ''function_call''"
| "item_type (OutputMessage i c) = ''message''"
| "item_type (OtherItem k i) = other_type k"

record response =
  response_output :: "response_item list"
  response_id :: string
  usage_total_tokens :: int

text \<open>
  Modelled from the spec: \<open>response.output_text\<close> is a property of the service's
  client library, not of the notebook; the spec calls it the accumulated message text.
  It is the concatenation of the text parts of the \<open>message\<close> items, and the empty
  string when there is none.
\<close>

definition output_text :: "response \<Rightarrow> string" where
  "output_text response =
     concat (concat (map content (filter (\<lambda>rx. item_type rx = ''message'') (response_output response))))"

text \<open>
  The items of the conversation are dictionaries: the user's message, the dictionary
  \<open>rx.to_dict()\<close> of a response item, and the \<open>function_call_output\<close> built by
  \<open>invoke_functions_from_response\<close>.
\<close>

datatype conversation_item =
    UserMessage string
  | ItemDict response_item
  | FunctionCallOutput (out_call_id: string) (out_output: string)

definition to_dict :: "response_item \<Rightarrow> conversation_item" where
  "to_dict rx = ItemDict rx"

text \<open>
  \<open>json.loads\<close> is the standard library's: it is a parameter, a function from the
  arguments string to the parsed value or to the exception it raises. A tool is a
  Python object: \<open>truthy\<close> is its value under the truth test \<open>if target_tool:\<close>
  (true of every function), and \<open>call\<close> what \<open>target_tool(**arguments)\<close> does
  with the parsed value in a state of the world, returning a string or raising.
  \<open>tool_mapping\<close> is the dictionary from names to tools.
\<close>

type_synonym 'a json_loads = "string \<Rightarrow> exn + 'a"

datatype ('a, 'w) tool =
  Tool (truthy: bool) (call: "'a \<Rightarrow> 'w \<Rightarrow> (exn + string) \<times> 'w")

type_synonym ('a, 'w) tool_mapping = "string \<rightharpoonup> ('a, 'w) tool"

section \<open>\<open>get_city_uuid\<close> and \<open>tool_mapping\<close>\<close>

text \<open>
  \<open>uuid4()\<close> reads the system's entropy. The state of the world is here the number of
  identifiers drawn so far, and \<open>uuid_of\<close> (a parameter) the identifier the k-th
  draw yields.
\<close>

definition uuid4 :: "(nat \<Rightarrow> string) \<Rightarrow> nat \<Rightarrow> string \<times> nat" where
  "uuid4 uuid_of w = (uuid_of w, Suc w)"

definition get_city_uuid :: "(nat \<Rightarrow> string) \<Rightarrow> string \<Rightarrow> nat \<Rightarrow> string \<times> nat" where
  "get_city_uuid uuid_of city w =
     (let (uuid, w') = uuid4 uuid_of w in (city @ '' ID: '' @ uuid, w'))"

text \<open>
  The parsed arguments of the notebook's tool are a JSON object with string members,
  kept as the list of its members in the order of the text; of a repeated member
  \<open>json.loads\<close> keeps the last value. \<open>get_city_uuid(**arguments)\<close> binds the
  member \<open>city\<close>; Python raises \<open>TypeError\<close> when there is another member, naming
  the first one, and when \<open>city\<close> is missing. The texts put the name between
  apostrophes (\<open>CHR 0x27\<close>).
\<close>

type_synonym arguments = "(string \<times> string) list"

definition call_get_city_uuid ::
  "(nat \<Rightarrow> string) \<Rightarrow> arguments \<Rightarrow> nat \<Rightarrow> (exn + string) \<times> nat" where
  "call_get_city_uuid uuid_of args w =
     (case filter (\<lambda>(k, v). k \<noteq> ''city'') args of
        (k, v) # _ \<Rightarrow>
          (Inl (Exception ''TypeError''
                  (''get_city_uuid() got an unexpected keyword argument ''
                     @ [CHR 0x27] @ k @ [CHR 0x27])), w)
      | [] \<Rightarrow>
          (case map_of (rev args) ''city'' of
             None \<Rightarrow>
               (Inl (Exception ''TypeError''
                       (''get_city_uuid() missing 1 required positional argument: ''
                          @ [CHR 0x27] @ ''city'' @ [CHR 0x27])), w)
           | Some city \<Rightarrow>
               (let (s, w') = get_city_uuid uuid_of city w in (Inr s, w'))))"

definition tool_mapping :: "(nat \<Rightarrow> string) \<Rightarrow> (arguments, nat) tool_mapping" where
  "tool_mapping uuid_of = [''get_city_uuid'' \<mapsto> Tool True (call_get_city_uuid uuid_of)]"

section \<open>The first extraction of function calls (cell 6)\<close>

text \<open>
  The first version has no handler: a name that \<open>tool_mapping.get\<close> does not find,
  or finds with a value that is not true, raises \<open>ValueError\<close>, and an exception of
  \<open>json.loads\<close> or of the tool reaches the caller. The list built so far is lost
  with it.
\<close>

fun extract_function_calls ::
  "'a json_loads \<Rightarrow> ('a, 'w) tool_mapping \<Rightarrow> response_item list \<Rightarrow> conversation_item list
     \<Rightarrow> 'w \<Rightarrow> (exn + conversation_item list) \<times> 'w" where
  "extract_function_calls loads tm [] new_conversation_items w = (Inr new_conversation_items, w)"
| "extract_function_calls loads tm (function_call # rest) new_conversation_items w =
     (case tm (name function_call) of
        None \<Rightarrow>
          (Inl (Exception ''ValueError''
                  (''No tool found for function call: '' @ name function_call)), w)
      | Some target_tool \<Rightarrow>
          (if \<not> truthy target_tool
           then (Inl (Exception ''ValueError''
                        (''No tool found for function call: '' @ name function_call)), w)
           else
             (case loads (arguments function_call) of
                Inl e \<Rightarrow> (Inl e, w)
              | Inr args \<Rightarrow>
                  (case call target_tool args w of
                     (Inl e, w') \<Rightarrow> (Inl e, w')
                   | (Inr tool_output, w') \<Rightarrow>
                       extract_function_calls loads tm rest
                         (new_conversation_items
                            @ [FunctionCallOutput (call_id function_call) tool_output]) w'))))"

definition single_call_extraction ::
  "'a json_loads \<Rightarrow> ('a, 'w) tool_mapping \<Rightarrow> response \<Rightarrow> 'w
     \<Rightarrow> (exn + conversation_item list) \<times> 'w" where
  "single_call_extraction loads tm response w =
     extract_function_calls loads tm
       (filter (\<lambda>rx. item_type rx = ''function_call'') (response_output response)) [] w"

section \<open>\<open>invoke_functions_from_response\<close>\<close>

text \<open>
  The body of the \<open>try\<close> block: parse the arguments, then call the tool. Its
  result is the tool's output or the exception raised by either step; a parse that
  fails leaves the tool uncalled and the world as it was.
\<close>

definition try_tool ::
  "'a json_loads \<Rightarrow> ('a, 'w) tool \<Rightarrow> response_item \<Rightarrow> 'w \<Rightarrow> (exn + string) \<times> 'w" where
  "try_tool loads target_tool response_item w =
     (case loads (arguments response_item) of
        Inl e \<Rightarrow> (Inl e, w)
      | Inr args \<Rightarrow> call target_tool args w)"

text \<open>
  The branch taken for one \<open>function_call\<close> item: the lookup
  \<open>tool_mapping.get\<close>, the truth test \<open>if target_tool:\<close>, the \<open>try\<close> with its
  handler \<open>except Exception as e\<close>, and the \<open>else\<close> taken when the name is not
  found or its value is not true. The result is the value of \<open>tool_output\<close>, or
  the exception that the handler does not catch and that leaves the function. The
  calls to \<open>print\<close> are left out, here and in the loop over the items, where a
  \<open>reasoning\<close> item is only printed.
\<close>

definition tool_output_of ::
  "'a json_loads \<Rightarrow> ('a, 'w) tool_mapping \<Rightarrow> response_item \<Rightarrow> 'w \<Rightarrow> (exn + string) \<times> 'w" where
  "tool_output_of loads tm response_item w =
     (case tm (name response_item) of
        Some target_tool \<Rightarrow>
          (if truthy target_tool
           then
             (case try_tool loads target_tool response_item w of
                (Inr tool_output, w') \<Rightarrow> (Inr tool_output, w')
              | (Inl (Exception c s), w') \<Rightarrow>
                  (Inr (''Error executing function call: '' @ name response_item @ '': '' @ s),
                   w')
              | (Inl (BaseException c s), w') \<Rightarrow> (Inl (BaseException c s), w'))
           else
             (Inr (''ERROR - No tool registered for function call: '' @ name response_item), w))
      | None \<Rightarrow>
          (Inr (''ERROR - No tool registered for function call: '' @ name response_item), w))"

text \<open>
  The loop over \<open>response.output\<close>. An exception that leaves the branch above leaves
  the function: the items after it are not looked at and the list built so far is
  lost.
\<close>

fun invoke_loop ::
  "'a json_loads \<Rightarrow> ('a, 'w) tool_mapping \<Rightarrow> response_item list \<Rightarrow> conversation_item list
     \<Rightarrow> 'w \<Rightarrow> (exn + conversation_item list) \<times> 'w" where
  "invoke_loop loads tm [] intermediate_messages w = (Inr intermediate_messages, w)"
| "invoke_loop loads tm (response_item # rest) intermediate_messages w =
     (if item_type response_item = ''function_call'' then
        (case tool_output_of loads tm response_item w of
           (Inl e, w') \<Rightarrow> (Inl e, w')
         | (Inr tool_output, w') \<Rightarrow>
             invoke_loop loads tm rest
               (intermediate_messages
                  @ [FunctionCallOutput (call_id response_item) tool_output]) w')
      else invoke_loop loads tm rest intermediate_messages w)"

definition invoke_functions_from_response ::
  "'a json_loads \<Rightarrow> ('a, 'w) tool_mapping \<Rightarrow> response \<Rightarrow> 'w
     \<Rightarrow> (exn + conversation_item list) \<times> 'w" where
  "invoke_functions_from_response loads tm response w =
     invoke_loop loads tm (response_output response) [] w"

section \<open>The response loop with \<open>previous_response_id\<close> (cell 9)\<close>

text \<open>
  A request to \<open>client.responses.create\<close> carries its \<open>input\<close> and, in this loop,
  the identifier of the previous response. The service is a function of the request and
  of the state of the world.
\<close>

record request =
  request_input :: "conversation_item list"
  previous_response_id :: "string option"

type_synonym 'w client = "request \<Rightarrow> 'w \<Rightarrow> response \<times> 'w"

text \<open>
  One pass through the body of \<open>while True\<close>: the text is printed and the loop is
  left, or the function responses are sent in the next request, or an exception that
  left \<open>invoke_functions_from_response\<close> leaves the loop as well.
\<close>

datatype loop_action = PrintAndBreak string | NextRequest request | Propagate exn

definition response_loop_body ::
  "'a json_loads \<Rightarrow> ('a, 'w) tool_mapping \<Rightarrow> response \<Rightarrow> 'w \<Rightarrow> loop_action \<times> 'w" where
  "response_loop_body loads tm response w =
     (case invoke_functions_from_response loads tm response w of
        (Inl e, w') \<Rightarrow> (Propagate e, w')
      | (Inr function_responses, w') \<Rightarrow>
          (if length function_responses = 0
           then (PrintAndBreak (output_text response), w')
           else (NextRequest \<lparr>request_input = function_responses,
                              previous_response_id = Some (response_id response)\<rparr>, w')))"

text \<open>
  \<open>while True\<close> has no bound: the model runs at most \<open>fuel\<close> passes, and \<open>None\<close>
  says that the loop had not ended by then. The result is the text printed on leaving,
  or the exception that ended the loop.
\<close>

fun response_loop ::
  "nat \<Rightarrow> 'w client \<Rightarrow> 'a json_loads \<Rightarrow> ('a, 'w) tool_mapping \<Rightarrow> response \<Rightarrow> 'w
     \<Rightarrow> ((exn + string) \<times> 'w) option" where
  "response_loop 0 client loads tm response w = None"
| "response_loop (Suc fuel) client loads tm response w =
     (case response_loop_body loads tm response w of
        (PrintAndBreak text, w') \<Rightarrow> Some (Inr text, w')
      | (Propagate e, w') \<Rightarrow> Some (Inl e, w')
      | (NextRequest req, w') \<Rightarrow>
          (let (response', w'') = client req w'
           in response_loop fuel client loads tm response' w''))"

definition ask ::
  "nat \<Rightarrow> 'w client \<Rightarrow> 'a json_loads \<Rightarrow> ('a, 'w) tool_mapping \<Rightarrow> string \<Rightarrow> 'w
     \<Rightarrow> ((exn + string) \<times> 'w) option" where
  "ask fuel client loads tm initial_question w =
     (let (response, w') =
            client \<lparr>request_input = [UserMessage initial_question],
                    previous_response_id = None\<rparr> w
      in response_loop fuel client loads tm response w')"

section \<open>Manual conversation orchestration (cell 10)\<close>

text \<open>
  The variables of the cell: the conversation, the token counter, and what
  \<open>print(response.output_text)\<close> has written. The prints that only report progress
  are left out.
\<close>

record loop_state =
  conversation :: "conversation_item list"
  total_tokens_used :: int
  printed_text :: "string list"

text \<open>How a pass through the body of the response loop ends.\<close>

datatype pass_outcome = Break | Continue | Raised exn

text \<open>
  The body of the response loop after the request has returned (lines 521 to 539):
  the new state, how the pass ends, and the world after the tools have run. When an
  exception leaves \<open>invoke_functions_from_response\<close> the pass ends there, with the
  state as the statements before it left it.
\<close>

definition process_response ::
  "'a json_loads \<Rightarrow> ('a, 'w) tool_mapping \<Rightarrow> response \<Rightarrow> loop_state \<Rightarrow> 'w
     \<Rightarrow> (loop_state \<times> pass_outcome) \<times> 'w" where
  "process_response loads tm response st w =
     (let st1 = st\<lparr>total_tokens_used := total_tokens_used st + usage_total_tokens response\<rparr>;
          reasoning = map to_dict
            (filter (\<lambda>rx. item_type rx = ''reasoning'') (response_output response));
          function_calls = map to_dict
            (filter (\<lambda>rx. item_type rx = ''function_call'') (response_output response));
          messages = map to_dict
            (filter (\<lambda>rx. item_type rx = ''message'') (response_output response));
          st2 = (if length reasoning > 0
                 then st1\<lparr>conversation := conversation st1 @ reasoning\<rparr> else st1);
          (r3, w') =
            (if length function_calls > 0
             then (case invoke_functions_from_response loads tm response w of
                     (Inl e, w1) \<Rightarrow> (Inl e, w1)
                   | (Inr function_outputs, w1) \<Rightarrow>
                       (let interleaved =
                              concat (map (\<lambda>(c, r). [c, r])
                                        (zip function_calls function_outputs))
                        in (Inr (st2\<lparr>conversation := conversation st2 @ interleaved\<rparr>), w1)))
             else (Inr st2, w))
      in case r3 of
           Inl e \<Rightarrow> ((st2, Raised e), w')
         | Inr st3 \<Rightarrow>
             (let st4 = (if length messages > 0
                         then st3\<lparr>printed_text := printed_text st3 @ [output_text response],
                                  conversation := conversation st3 @ messages\<rparr>
                         else st3)
              in ((st4, if length function_calls = 0 then Break else Continue), w')))"

text \<open>
  The request that opens every pass of the response loop:
  \<open>client.responses.create(input=conversation, **MODEL_DEFAULTS)\<close>.
\<close>

definition conversation_request :: "loop_state \<Rightarrow> request" where
  "conversation_request st = \<lparr>request_input = conversation st, previous_response_id = None\<rparr>"

text \<open>
  The response loop of one user message, with fuel as above. The result holds the
  state and the world at the end, the responses received, in order, and the exception
  that ended the loop if one did. The cell does not keep the list of responses; the
  statements about the token counter need it.
\<close>

fun manual_response_loop ::
  "nat \<Rightarrow> 'w client \<Rightarrow> 'a json_loads \<Rightarrow> ('a, 'w) tool_mapping \<Rightarrow> loop_state \<Rightarrow> 'w
     \<Rightarrow> (loop_state \<times> 'w \<times> response list \<times> exn option) option" where
  "manual_response_loop 0 client loads tm st w = None"
| "manual_response_loop (Suc fuel) client loads tm st w =
     (let (response, w1) = client (conversation_request st) w;
          ((st', outcome), w2) = process_response loads tm response st w1
      in case outcome of
           Break \<Rightarrow> Some (st', w2, [response], None)
         | Raised e \<Rightarrow> Some (st', w2, [response], Some e)
         | Continue \<Rightarrow>
             (case manual_response_loop fuel client loads tm st' w2 of
                None \<Rightarrow> None
              | Some (st'', w3, received, raised) \<Rightarrow>
                  Some (st'', w3, response # received, raised)))"

text \<open>
  The loop over \<open>user_messages\<close>; each message gets the same fuel. An exception
  that ended a response loop ends this loop too.
\<close>

fun user_messages_loop ::
  "nat \<Rightarrow> 'w client \<Rightarrow> 'a json_loads \<Rightarrow> ('a, 'w) tool_mapping \<Rightarrow> string list \<Rightarrow> loop_state
     \<Rightarrow> 'w \<Rightarrow> (loop_state \<times> 'w \<times> response list \<times> exn option) option" where
  "user_messages_loop fuel client loads tm [] st w = Some (st, w, [], None)"
| "user_messages_loop fuel client loads tm (message # rest) st w =
     (case manual_response_loop fuel client loads tm
             (st\<lparr>conversation := conversation st @ [UserMessage message]\<rparr>) w of
        None \<Rightarrow> None
      | Some (st', w', received, Some e) \<Rightarrow> Some (st', w', received, Some e)
      | Some (st', w', received, None) \<Rightarrow>
          (case user_messages_loop fuel client loads tm rest st' w' of
             None \<Rightarrow> None
           | Some (st'', w'', received', raised) \<Rightarrow>
               Some (st'', w'', received @ received', raised)))"

definition initial_state :: loop_state where
  "initial_state = \<lparr>conversation = [], total_tokens_used = 0, printed_text = []\<rparr>"

definition manual_orchestration ::
  "nat \<Rightarrow> 'w client \<Rightarrow> 'a json_loads \<Rightarrow> ('a, 'w) tool_mapping \<Rightarrow> string list \<Rightarrow> 'w
     \<Rightarrow> (loop_state \<times> 'w \<times> response list \<times> exn option) option" where
  "manual_orchestration fuel client loads tm user_messages w =
     user_messages_loop fuel client loads tm user_messages initial_state w"

section \<open>Notions used in the statements\<close>

text \<open>
  The spec's reading of sequential resolution: the calls are taken one at a time in
  the order given, each in the world the previous one left, and each yields one result
  under its own \<open>call_id\<close>; an exception that leaves a call ends the resolution.
\<close>

fun resolve_in_order ::
  "'a json_loads \<Rightarrow> ('a, 'w) tool_mapping \<Rightarrow> response_item list \<Rightarrow> 'w
     \<Rightarrow> (exn + conversation_item list) \<times> 'w" where
  "resolve_in_order loads tm [] w = (Inr [], w)"
| "resolve_in_order loads tm (c # cs) w =
     (case tool_output_of loads tm c w of
        (Inl e, w1) \<Rightarrow> (Inl e, w1)
      | (Inr out, w1) \<Rightarrow>
          (case resolve_in_order loads tm cs w1 of
             (Inl e, w2) \<Rightarrow> (Inl e, w2)
           | (Inr rs, w2) \<Rightarrow> (Inr (FunctionCallOutput (call_id c) out # rs), w2)))"

definition function_calls_of :: "response \<Rightarrow> response_item list" where
  "function_calls_of response =
     filter (\<lambda>rx. item_type rx = ''function_call'') (response_output response)"

definition reasoning_of :: "response \<Rightarrow> response_item list" where
  "reasoning_of response =
     filter (\<lambda>rx. item_type rx = ''reasoning'') (response_output response)"

definition messages_of :: "response \<Rightarrow> response_item list" where
  "messages_of response =
     filter (\<lambda>rx. item_type rx = ''message'') (response_output response)"

text \<open>A pass completes when no exception ends it.\<close>

fun completes :: "pass_outcome \<Rightarrow> bool" where
  "completes Break = True"
| "completes Continue = True"
| "completes (Raised e) = False"

text \<open>What one pass appended: the conversation after it, without the items before it.\<close>

definition appended_items :: "loop_state \<Rightarrow> loop_state \<Rightarrow> conversation_item list" where
  "appended_items st st' = drop (length (conversation st)) (conversation st')"

fun is_result_for :: "string \<Rightarrow> conversation_item \<Rightarrow> bool" where
  "is_result_for cid (FunctionCallOutput c out) = (c = cid)"
| "is_result_for cid (UserMessage m) = False"
| "is_result_for cid (ItemDict rx) = False"

definition results_for :: "string \<Rightarrow> conversation_item list \<Rightarrow> conversation_item list" where
  "results_for cid items = filter (is_result_for cid) items"

text \<open>An item with the output of a tool result blanked, to compare two runs.\<close>

fun erase_output :: "conversation_item \<Rightarrow> conversation_item" where
  "erase_output (FunctionCallOutput c out) = FunctionCallOutput c []"
| "erase_output (UserMessage m) = UserMessage m"
| "erase_output (ItemDict rx) = ItemDict rx"

text \<open>A registry whose tools answer by their arguments alone, whatever the world.\<close>

definition world_independent :: "('a, 'w) tool_mapping \<Rightarrow> bool" where
  "world_independent tm =
     (\<forall>n t a w w'. tm n = Some t \<longrightarrow> fst (call t a w) = fst (call t a w'))"

section \<open>Example inputs\<close>

text \<open>
  Concrete inputs on which the statements below are evaluated. \<open>example_loads\<close>
  stands for \<open>json.loads\<close> on the argument strings of the examples (written
  without their double quotes); any other string is malformed.
\<close>

definition example_uuid_of :: "nat \<Rightarrow> string" where
  "example_uuid_of k = (if k = 0 then ''ce863d03'' else if k = 1 then ''a24addb0'' else ''53c0e635'')"

definition example_loads :: "arguments json_loads" where
  "example_loads s =
     (if s = ''{city: London}'' then Inr [(''city'', ''London'')]
      else if s = ''{town: London}'' then Inr [(''town'', ''London'')]
      else Inl (Exception ''JSONDecodeError'' ''Expecting value: line 1 column 1 (char 0)''))"

text \<open>
  A tool that raises an exception of class \<open>Exception\<close>, one that calls
  \<open>sys.exit(1)\<close> and so raises \<open>SystemExit\<close>, which is outside that class, and one
  that answers the same whatever the world.
\<close>

definition failing_tool :: "arguments \<Rightarrow> nat \<Rightarrow> (exn + string) \<times> nat" where
  "failing_tool args w = (Inl (Exception ''RuntimeError'' ''database unavailable''), w)"

definition exiting_tool :: "arguments \<Rightarrow> nat \<Rightarrow> (exn + string) \<times> nat" where
  "exiting_tool args w = (Inl (BaseException ''SystemExit'' ''1''), w)"

definition fixed_tool :: "arguments \<Rightarrow> nat \<Rightarrow> (exn + string) \<times> nat" where
  "fixed_tool args w = (Inr ''London ID: 0000'', w)"

definition example_tools :: "(arguments, nat) tool_mapping" where
  "example_tools =
     (tool_mapping example_uuid_of)(''get_population'' \<mapsto> Tool True failing_tool)"

definition exiting_tools :: "(arguments, nat) tool_mapping" where
  "exiting_tools =
     (tool_mapping example_uuid_of)(''shutdown'' \<mapsto> Tool True exiting_tool)"

definition fixed_tools :: "(arguments, nat) tool_mapping" where
  "fixed_tools = [''get_city_uuid'' \<mapsto> Tool True fixed_tool]"

definition call_response :: response where
  "call_response =
     \<lparr>response_output =
        [ReasoningItem ''rs_1'' [],
         FunctionToolCall ''{city: London}'' ''call_1'' ''get_city_uuid'' ''fc_1''],
      response_id = ''resp_1'', usage_total_tokens = 198\<rparr>"

definition final_response :: response where
  "final_response =
     \<lparr>response_output = [OutputMessage ''msg_1'' [''done'']],
      response_id = ''resp_2'', usage_total_tokens = 120\<rparr>"

definition mixed_response :: response where
  "mixed_response =
     \<lparr>response_output =
        [ReasoningItem ''rs_1'' [''plan''],
         FunctionToolCall ''{city: London}'' ''call_1'' ''get_city_uuid'' ''fc_1'',
         FunctionToolCall ''{city: London}'' ''call_2'' ''unknown_tool'' ''fc_2'',
         OutputMessage ''msg_1'' [''looking up''],
         FunctionToolCall ''not json'' ''call_3'' ''get_city_uuid'' ''fc_3'',
         FunctionToolCall ''{city: London}'' ''call_4'' ''get_population'' ''fc_4'',
         OtherItem WebSearchCall ''ws_1'',
         FunctionToolCall ''{town: London}'' ''call_5'' ''get_city_uuid'' ''fc_5''],
      response_id = ''resp_3'', usage_total_tokens = 310\<rparr>"

definition exit_response :: response where
  "exit_response =
     \<lparr>response_output =
        [FunctionToolCall ''{city: London}'' ''call_1'' ''shutdown'' ''fc_1'',
         FunctionToolCall ''{city: London}'' ''call_2'' ''get_city_uuid'' ''fc_2''],
      response_id = ''resp_4'', usage_total_tokens = 90\<rparr>"

definition reasoning_only_response :: response where
  "reasoning_only_response =
     \<lparr>response_output = [ReasoningItem ''rs_9'' [''thinking'']],
      response_id = ''resp_9'', usage_total_tokens = 64\<rparr>"

definition example_state :: loop_state where
  "example_state =
     \<lparr>conversation = [UserMessage ''get id for city London''],
      total_tokens_used = 0, printed_text = []\<rparr>"

text \<open>The states the example conversation passes through.\<close>

definition after_call_state :: loop_state where
  "after_call_state =
     \<lparr>conversation =
        [UserMessage ''get id for city London'',
         ItemDict (ReasoningItem ''rs_1'' []),
         ItemDict (FunctionToolCall ''{city: London}'' ''call_1'' ''get_city_uuid'' ''fc_1''),
         FunctionCallOutput ''call_1'' ''London ID: ce863d03''],
      total_tokens_used = 198, printed_text = []\<rparr>"

definition final_state :: loop_state where
  "final_state =
     \<lparr>conversation =
        [UserMessage ''get id for city London'',
         ItemDict (ReasoningItem ''rs_1'' []),
         ItemDict (FunctionToolCall ''{city: London}'' ''call_1'' ''get_city_uuid'' ''fc_1''),
         FunctionCallOutput ''call_1'' ''London ID: ce863d03'',
         ItemDict (OutputMessage ''msg_1'' [''done''])],
      total_tokens_used = 318, printed_text = [''done'']\<rparr>"

definition after_mixed_state :: loop_state where
  "after_mixed_state =
     \<lparr>conversation =
        [UserMessage ''get id for city London'',
         ItemDict (ReasoningItem ''rs_1'' [''plan'']),
         ItemDict (FunctionToolCall ''{city: London}'' ''call_1'' ''get_city_uuid'' ''fc_1''),
         FunctionCallOutput ''call_1'' ''London ID: ce863d03'',
         ItemDict (FunctionToolCall ''{city: London}'' ''call_2'' ''unknown_tool'' ''fc_2''),
         FunctionCallOutput ''call_2''
           ''ERROR - No tool registered for function call: unknown_tool'',
         ItemDict (FunctionToolCall ''not json'' ''call_3'' ''get_city_uuid'' ''fc_3''),
         FunctionCallOutput ''call_3''
           ''Error executing function call: get_city_uuid: Expecting value: line 1 column 1 (char 0)'',
         ItemDict (FunctionToolCall ''{city: London}'' ''call_4'' ''get_population'' ''fc_4''),
         FunctionCallOutput ''call_4''
           ''Error executing function call: get_population: database unavailable'',
         ItemDict (FunctionToolCall ''{town: London}'' ''call_5'' ''get_city_uuid'' ''fc_5''),
         FunctionCallOutput ''call_5''
           (''Error executing function call: get_city_uuid: ''
              @ ''get_city_uuid() got an unexpected keyword argument ''
              @ [CHR 0x27] @ ''town'' @ [CHR 0x27]),
         ItemDict (OutputMessage ''msg_1'' [''looking up''])],
      total_tokens_used = 310, printed_text = [''looking up'']\<rparr>"

text \<open>
  A service that asks for one tool call until the conversation it is sent holds a
  tool result, and then answers; and one that only ever sends reasoning.
\<close>

definition example_client :: "nat client" where
  "example_client req w =
     (if results_for ''call_1'' (request_input req) = [] then (call_response, w)
      else (final_response, w))"

definition silent_client :: "nat client" where
  "silent_client req w = (reasoning_only_response, w)"

text \<open>A service that asks for the tool that exits and then for another call.\<close>

definition exit_client :: "nat client" where
  "exit_client req w = (exit_response, w)"

section \<open>Facts about the model\<close>

subsection \<open>The type tests\<close>

lemma item_type_function_call:
  "(item_type rx = ''function_call'') = (\<exists>a c n i. rx = FunctionToolCall a c n i)"
  by (cases rx; cases "other rx") auto

lemma item_type_reasoning:
  "(item_type rx = ''reasoning'') = (\<exists>i s. rx = ReasoningItem i s)"
  by (cases rx; cases "other rx") auto

lemma item_type_message:
  "(item_type rx = ''message'') = (\<exists>i c. rx = OutputMessage i c)"
  by (cases rx; cases "other rx") auto

subsection \<open>\<open>invoke_functions_from_response\<close> resolves the calls in order\<close>

lemma invoke_loop_acc:
  "invoke_loop loads tm xs acc w =
     (case invoke_loop loads tm xs [] w of
        (Inl e, w') \<Rightarrow> (Inl e, w')
      | (Inr rs, w') \<Rightarrow> (Inr (acc @ rs), w'))"
proof (induction xs arbitrary: acc w)
  case Nil
  show ?case by simp
next
  case (Cons x xs)
  show ?case
  proof (cases "item_type x = ''function_call''")
    case False
    then show ?thesis using Cons.IH [of acc w] by simp
  next
    case True
    obtain r w' where o: "tool_output_of loads tm x w = (r, w')"
      by (cases "tool_output_of loads tm x w")
    show ?thesis
    proof (cases r)
      case (Inl e)
      with True o show ?thesis by simp
    next
      case (Inr out)
      with True o show ?thesis
        using Cons.IH [of "acc @ [FunctionCallOutput (call_id x) out]" w']
          Cons.IH [of "[FunctionCallOutput (call_id x) out]" w']
        by (simp split: prod.splits sum.splits)
    qed
  qed
qed

lemma invoke_loop_resolve:
  "invoke_loop loads tm xs [] w =
     resolve_in_order loads tm (filter (\<lambda>rx. item_type rx = ''function_call'') xs) w"
proof (induction xs arbitrary: w)
  case Nil
  show ?case by simp
next
  case (Cons x xs)
  show ?case
  proof (cases "item_type x = ''function_call''")
    case False
    then show ?thesis using Cons.IH [of w] by simp
  next
    case True
    obtain r w' where o: "tool_output_of loads tm x w = (r, w')"
      by (cases "tool_output_of loads tm x w")
    show ?thesis
    proof (cases r)
      case (Inl e)
      with True o show ?thesis by simp
    next
      case (Inr out)
      with True o show ?thesis
        using Cons.IH [of w']
          invoke_loop_acc [of loads tm xs "[FunctionCallOutput (call_id x) out]" w']
        by (simp split: prod.splits sum.splits)
    qed
  qed
qed

lemma invoke_resolve:
  "invoke_functions_from_response loads tm response w =
     resolve_in_order loads tm (function_calls_of response) w"
  by (simp add: invoke_functions_from_response_def invoke_loop_resolve function_calls_of_def)

lemma resolve_in_order_append:
  "resolve_in_order loads tm (cs @ ds) w =
     (case resolve_in_order loads tm cs w of
        (Inl e, w1) \<Rightarrow> (Inl e, w1)
      | (Inr r1, w1) \<Rightarrow>
          (case resolve_in_order loads tm ds w1 of
             (Inl e, w2) \<Rightarrow> (Inl e, w2)
           | (Inr r2, w2) \<Rightarrow> (Inr (r1 @ r2), w2)))"
  by (induction cs arbitrary: w) (simp_all split: prod.splits sum.splits)

lemma resolve_in_order_call_ids:
  "resolve_in_order loads tm cs w = (Inr rs, w') \<Longrightarrow> map out_call_id rs = map call_id cs"
  by (induction cs arbitrary: w rs) (auto split: prod.splits sum.splits)

lemma resolve_in_order_length:
  "resolve_in_order loads tm cs w = (Inr rs, w') \<Longrightarrow> length rs = length cs"
  using resolve_in_order_call_ids [of loads tm cs w rs w'] by (metis length_map)

lemma resolve_in_order_shape:
  "resolve_in_order loads tm cs w = (Inr rs, w') \<Longrightarrow>
     rs = map (\<lambda>(c, out). FunctionCallOutput (call_id c) out) (zip cs (map out_output rs))"
  by (induction cs arbitrary: w rs) (auto split: prod.splits sum.splits)

lemma resolve_in_order_nth:
  assumes "resolve_in_order loads tm cs w = (Inr rs, w')" and "i < length cs"
  shows "rs ! i = FunctionCallOutput (call_id (cs ! i)) (out_output (rs ! i))"
proof -
  have len: "length rs = length cs"
    using assms(1) by (rule resolve_in_order_length)
  have "rs ! i = map (\<lambda>(c, out). FunctionCallOutput (call_id c) out)
                   (zip cs (map out_output rs)) ! i"
    using resolve_in_order_shape [OF assms(1)] by simp
  also have "\<dots> = FunctionCallOutput (call_id (cs ! i)) (out_output (rs ! i))"
    using assms(2) len by simp
  finally show ?thesis .
qed

lemma resolve_in_order_raises:
  "resolve_in_order loads tm cs w = (Inl e, w') \<Longrightarrow> \<exists>c s. e = BaseException c s"
proof (induction cs arbitrary: w)
  case Nil
  then show ?case by simp
next
  case (Cons c cs)
  obtain r w1 where o: "tool_output_of loads tm c w = (r, w1)"
    by (cases "tool_output_of loads tm c w")
  show ?case
  proof (cases r)
    case (Inl e')
    with o Cons.prems have "e = e'" by simp
    moreover from o Inl have "\<exists>c s. e' = BaseException c s"
      by (auto simp: tool_output_of_def split: option.splits if_splits prod.splits sum.splits
          exn.splits)
    ultimately show ?thesis by simp
  next
    case (Inr out)
    with o Cons.prems have "resolve_in_order loads tm cs w1 = (Inl e, w')"
      by (auto split: prod.splits sum.splits)
    then show ?thesis by (rule Cons.IH)
  qed
qed

subsection \<open>One pass of the manual loop\<close>

lemma invoke_no_calls:
  "function_calls_of response = [] \<Longrightarrow>
     invoke_functions_from_response loads tm response w = (Inr [], w)"
  by (simp add: invoke_resolve)

lemma invoke_length:
  "invoke_functions_from_response loads tm response w = (Inr rs, w') \<Longrightarrow>
     length rs = length (function_calls_of response)"
  by (simp add: invoke_resolve resolve_in_order_length)

lemma invoke_raises_calls:
  "invoke_functions_from_response loads tm response w = (Inl e, w') \<Longrightarrow>
     function_calls_of response \<noteq> []"
  using invoke_no_calls [of response loads tm w] by auto

lemma process_response_tokens:
  "total_tokens_used (fst (fst (process_response loads tm response st w))) =
     total_tokens_used st + usage_total_tokens response"
  by (simp add: process_response_def Let_def split: prod.splits sum.splits)

lemma process_response_break:
  "(snd (fst (process_response loads tm response st w)) = Break) =
     (function_calls_of response = [])"
  by (simp add: process_response_def Let_def function_calls_of_def split: prod.splits sum.splits)

lemma process_response_world:
  "snd (process_response loads tm response st w) =
     snd (invoke_functions_from_response loads tm response w)"
proof (cases "function_calls_of response = []")
  case True
  then show ?thesis
    using invoke_no_calls [OF True, of loads tm w]
    by (simp add: process_response_def Let_def function_calls_of_def split: prod.splits sum.splits)
next
  case False
  then show ?thesis
    by (simp add: process_response_def Let_def function_calls_of_def split: prod.splits sum.splits)
qed

lemma process_response_completed:
  assumes "invoke_functions_from_response loads tm response w = (Inr rs, w1)"
  shows "conversation (fst (fst (process_response loads tm response st w))) =
           conversation st
           @ map to_dict (reasoning_of response)
           @ concat (map (\<lambda>(c, r). [to_dict c, r]) (zip (function_calls_of response) rs))
           @ map to_dict (messages_of response)"
    and "snd (fst (process_response loads tm response st w)) =
           (if function_calls_of response = [] then Break else Continue)"
    and "printed_text (fst (fst (process_response loads tm response st w))) =
           printed_text st @ (if messages_of response = [] then [] else [output_text response])"
proof -
  show "conversation (fst (fst (process_response loads tm response st w))) =
           conversation st
           @ map to_dict (reasoning_of response)
           @ concat (map (\<lambda>(c, r). [to_dict c, r]) (zip (function_calls_of response) rs))
           @ map to_dict (messages_of response)"
    using assms
    by (simp add: process_response_def Let_def function_calls_of_def reasoning_of_def
        messages_of_def zip_map1 o_def split_def)
  show "snd (fst (process_response loads tm response st w)) =
           (if function_calls_of response = [] then Break else Continue)"
    using assms
    by (simp add: process_response_def Let_def function_calls_of_def split_def)
  show "printed_text (fst (fst (process_response loads tm response st w))) =
           printed_text st @ (if messages_of response = [] then [] else [output_text response])"
    using assms
    by (simp add: process_response_def Let_def function_calls_of_def messages_of_def split_def)
qed

lemma process_response_raised:
  assumes "invoke_functions_from_response loads tm response w = (Inl e, w1)"
  shows "conversation (fst (fst (process_response loads tm response st w))) =
           conversation st @ map to_dict (reasoning_of response)"
    and "snd (fst (process_response loads tm response st w)) = Raised e"
    and "printed_text (fst (fst (process_response loads tm response st w))) = printed_text st"
proof -
  have calls: "filter (\<lambda>rx. item_type rx = ''function_call'') (response_output response) \<noteq> []"
    using invoke_raises_calls [OF assms] by (simp add: function_calls_of_def)
  show "conversation (fst (fst (process_response loads tm response st w))) =
           conversation st @ map to_dict (reasoning_of response)"
    using assms calls by (simp add: process_response_def Let_def reasoning_of_def)
  show "snd (fst (process_response loads tm response st w)) = Raised e"
    using assms calls by (simp add: process_response_def Let_def)
  show "printed_text (fst (fst (process_response loads tm response st w))) = printed_text st"
    using assms calls by (simp add: process_response_def Let_def)
qed

lemma process_response_completes:
  "completes (snd (fst (process_response loads tm response st w))) =
     (\<exists>rs w1. invoke_functions_from_response loads tm response w = (Inr rs, w1))"
proof (cases "invoke_functions_from_response loads tm response w")
  case (Pair r w1)
  show ?thesis
  proof (cases r)
    case (Inl e)
    with Pair show ?thesis using process_response_raised(2) [of loads tm response w e w1 st]
      by simp
  next
    case (Inr rs)
    with Pair show ?thesis using process_response_completed(2) [of loads tm response w rs w1 st]
      by simp
  qed
qed

lemma process_response_extends:
  "conversation (fst (fst (process_response loads tm response st w))) =
     conversation st @ appended_items st (fst (fst (process_response loads tm response st w)))"
proof (cases "invoke_functions_from_response loads tm response w")
  case (Pair r w1)
  show ?thesis
  proof (cases r)
    case (Inl e)
    with Pair show ?thesis
      using process_response_raised(1) [of loads tm response w e w1 st]
      by (simp add: appended_items_def)
  next
    case (Inr rs)
    with Pair show ?thesis
      using process_response_completed(1) [of loads tm response w rs w1 st]
      by (simp add: appended_items_def)
  qed
qed

lemma appended_items_completed:
  assumes "invoke_functions_from_response loads tm response w = (Inr rs, w1)"
  shows "appended_items st (fst (fst (process_response loads tm response st w))) =
     map to_dict (reasoning_of response)
     @ concat (map (\<lambda>(c, r). [to_dict c, r]) (zip (function_calls_of response) rs))
     @ map to_dict (messages_of response)"
  using process_response_completed(1) [OF assms, of st] by (simp add: appended_items_def)

lemma appended_items_raised:
  assumes "invoke_functions_from_response loads tm response w = (Inl e, w1)"
  shows "appended_items st (fst (fst (process_response loads tm response st w))) =
     map to_dict (reasoning_of response)"
  using process_response_raised(1) [OF assms, of st] by (simp add: appended_items_def)

lemma results_in_interleaved:
  "length cs = length rs \<Longrightarrow>
     set rs \<subseteq> set (concat (map (\<lambda>(c, r). [to_dict c, r]) (zip cs rs)))"
  by (induction cs rs rule: list_induct2) auto

lemma results_are_appended:
  assumes "invoke_functions_from_response loads tm response w = (Inr rs, w1)"
  shows "set rs \<subseteq> set (appended_items st (fst (fst (process_response loads tm response st w))))"
  using results_in_interleaved [of "function_calls_of response" rs] invoke_length [OF assms]
  by (auto simp: appended_items_completed [OF assms])

lemma invoke_split:
  assumes "response_output response = before @ item # after"
      and "item_type item = ''function_call''"
  shows "invoke_functions_from_response loads tm response w =
     (case invoke_functions_from_response loads tm (response\<lparr>response_output := before\<rparr>) w of
        (Inl e, w1) \<Rightarrow> (Inl e, w1)
      | (Inr r1, w1) \<Rightarrow>
          (case tool_output_of loads tm item w1 of
             (Inl e, w2) \<Rightarrow> (Inl e, w2)
           | (Inr out, w2) \<Rightarrow>
               (case invoke_functions_from_response loads tm
                       (response\<lparr>response_output := after\<rparr>) w2 of
                  (Inl e, w3) \<Rightarrow> (Inl e, w3)
                | (Inr r2, w3) \<Rightarrow>
                    (Inr (r1 @ FunctionCallOutput (call_id item) out # r2), w3))))"
  using assms
  by (simp add: invoke_resolve function_calls_of_def resolve_in_order_append
      split: prod.splits sum.splits)

subsection \<open>The examples, evaluated\<close>

lemma function_calls_of_mixed_response:
  "function_calls_of mixed_response =
     [FunctionToolCall ''{city: London}'' ''call_1'' ''get_city_uuid'' ''fc_1'',
      FunctionToolCall ''{city: London}'' ''call_2'' ''unknown_tool'' ''fc_2'',
      FunctionToolCall ''not json'' ''call_3'' ''get_city_uuid'' ''fc_3'',
      FunctionToolCall ''{city: London}'' ''call_4'' ''get_population'' ''fc_4'',
      FunctionToolCall ''{town: London}'' ''call_5'' ''get_city_uuid'' ''fc_5'']"
  by (simp add: function_calls_of_def mixed_response_def)

lemma invoke_mixed_response:
  "invoke_functions_from_response example_loads example_tools mixed_response 0 =
     (Inr [FunctionCallOutput ''call_1'' ''London ID: ce863d03'',
           FunctionCallOutput ''call_2''
             ''ERROR - No tool registered for function call: unknown_tool'',
           FunctionCallOutput ''call_3''
             ''Error executing function call: get_city_uuid: Expecting value: line 1 column 1 (char 0)'',
           FunctionCallOutput ''call_4''
             ''Error executing function call: get_population: database unavailable'',
           FunctionCallOutput ''call_5''
             (''Error executing function call: get_city_uuid: ''
                @ ''get_city_uuid() got an unexpected keyword argument ''
                @ [CHR 0x27] @ ''town'' @ [CHR 0x27])], Suc 0)"
  by (simp add: invoke_functions_from_response_def mixed_response_def tool_output_of_def
      try_tool_def example_tools_def tool_mapping_def example_loads_def call_get_city_uuid_def
      get_city_uuid_def uuid4_def example_uuid_of_def failing_tool_def)

lemma process_response_mixed_response:
  "process_response example_loads example_tools mixed_response example_state 0 =
     ((after_mixed_state, Continue), Suc 0)"
  by (simp add: process_response_def invoke_mixed_response Let_def)
     (simp add: mixed_response_def example_state_def after_mixed_state_def to_dict_def
      output_text_def)

lemma invoke_exit_response:
  "invoke_functions_from_response example_loads exiting_tools exit_response 0 =
     (Inl (BaseException ''SystemExit'' ''1''), 0)"
  by (simp add: invoke_functions_from_response_def exit_response_def tool_output_of_def
      try_tool_def exiting_tools_def tool_mapping_def example_loads_def exiting_tool_def)

lemma process_response_exit_response:
  "process_response example_loads exiting_tools exit_response example_state 0 =
     ((example_state\<lparr>total_tokens_used := 90\<rparr>, Raised (BaseException ''SystemExit'' ''1'')), 0)"
  by (simp add: process_response_def invoke_exit_response Let_def)
     (simp add: exit_response_def example_state_def)

subsection \<open>The branches of one call\<close>

lemma tool_output_of_unregistered:
  "tm (name item) = None \<Longrightarrow>
     tool_output_of loads tm item w =
       (Inr (''ERROR - No tool registered for function call: '' @ name item), w)"
  by (simp add: tool_output_of_def)

lemma tool_output_of_not_truthy:
  "tm (name item) = Some target_tool \<Longrightarrow> \<not> truthy target_tool \<Longrightarrow>
     tool_output_of loads tm item w =
       (Inr (''ERROR - No tool registered for function call: '' @ name item), w)"
  by (simp add: tool_output_of_def)

lemma tool_output_of_caught:
  assumes "tm (name item) = Some target_tool" and "truthy target_tool"
      and "(loads (arguments item) = Inl (Exception c s) \<and> w2 = w1)
           \<or> (\<exists>args. loads (arguments item) = Inr args
                \<and> call target_tool args w1 = (Inl (Exception c s), w2))"
  shows "tool_output_of loads tm item w1 =
     (Inr (''Error executing function call: '' @ name item @ '': '' @ s), w2)"
proof -
  have "try_tool loads target_tool item w1 = (Inl (Exception c s), w2)"
    using assms(3) by (auto simp: try_tool_def)
  then show ?thesis using assms(1,2) by (simp add: tool_output_of_def)
qed

lemma tool_output_of_propagated:
  assumes "tm (name item) = Some target_tool" and "truthy target_tool"
      and "(loads (arguments item) = Inl (BaseException c s) \<and> w2 = w1)
           \<or> (\<exists>args. loads (arguments item) = Inr args
                \<and> call target_tool args w1 = (Inl (BaseException c s), w2))"
  shows "tool_output_of loads tm item w1 = (Inl (BaseException c s), w2)"
proof -
  have "try_tool loads target_tool item w1 = (Inl (BaseException c s), w2)"
    using assms(3) by (auto simp: try_tool_def)
  then show ?thesis using assms(1,2) by (simp add: tool_output_of_def)
qed

lemma completed_pass_results:
  assumes "process_response loads tm response st w = ((st', outcome), w')"
      and "completes outcome"
  shows "\<exists>rs. invoke_functions_from_response loads tm response w = (Inr rs, w')
     \<and> set rs \<subseteq> set (appended_items st st')"
proof -
  have st': "st' = fst (fst (process_response loads tm response st w))"
    and out: "outcome = snd (fst (process_response loads tm response st w))"
    and w': "w' = snd (process_response loads tm response st w)"
    using assms(1) by simp_all
  from assms(2) obtain rs w1 where
    i: "invoke_functions_from_response loads tm response w = (Inr rs, w1)"
    unfolding out process_response_completes by blast
  have "w' = w1" using i by (simp add: w' process_response_world)
  with i results_are_appended [OF i, of st] show ?thesis by (auto simp: st')
qed

subsection \<open>Tool results in the appended items\<close>

lemma results_for_to_dict: "results_for cid (map to_dict xs) = []"
  by (induction xs) (simp_all add: results_for_def to_dict_def)

lemma results_for_append: "results_for cid (xs @ ys) = results_for cid xs @ results_for cid ys"
  by (simp add: results_for_def)

lemma results_for_interleaved:
  "length cs = length rs \<Longrightarrow>
     results_for cid (concat (map (\<lambda>(c, r). [to_dict c, r]) (zip cs rs))) = results_for cid rs"
  by (induction cs rs rule: list_induct2) (simp_all add: results_for_def to_dict_def)

lemma results_for_resolve:
  "resolve_in_order loads tm cs w = (Inr rs, w') \<Longrightarrow>
     length (results_for cid rs) = length (filter (\<lambda>c. call_id c = cid) cs)"
  by (induction cs arbitrary: w rs) (auto simp: results_for_def split: prod.splits sum.splits)

lemma results_for_invoke:
  "invoke_functions_from_response loads tm response w = (Inr rs, w') \<Longrightarrow>
     length (results_for cid rs) =
       length (filter (\<lambda>c. call_id c = cid) (function_calls_of response))"
  by (simp add: invoke_resolve results_for_resolve)

lemma results_for_appended:
  assumes "invoke_functions_from_response loads tm response w = (Inr rs, w1)"
  shows "length (results_for cid
       (appended_items st (fst (fst (process_response loads tm response st w))))) =
     length (filter (\<lambda>c. call_id c = cid) (function_calls_of response))"
proof -
  have "results_for cid
       (appended_items st (fst (fst (process_response loads tm response st w)))) =
     results_for cid rs"
    by (simp add: appended_items_completed [OF assms] results_for_append results_for_to_dict
        results_for_interleaved invoke_length [OF assms])
  then show ?thesis using results_for_invoke [OF assms, of cid] by simp
qed

lemma distinct_call_ids_once:
  "distinct (map call_id cs) \<Longrightarrow> c \<in> set cs \<Longrightarrow>
     length (filter (\<lambda>x. call_id x = call_id c) cs) = 1"
proof (induction cs)
  case Nil
  then show ?case by simp
next
  case (Cons x cs)
  show ?case
  proof (cases "x = c")
    case True
    with Cons.prems have "call_id c \<notin> call_id ` set cs" by simp
    then have "\<forall>y\<in>set cs. call_id y \<noteq> call_id c" by (metis imageI)
    then have "filter (\<lambda>x. call_id x = call_id c) cs = []" by (simp add: filter_empty_conv)
    with True show ?thesis by simp
  next
    case False
    with Cons.prems have c: "c \<in> set cs" by simp
    from Cons.prems have "call_id x \<notin> call_id ` set cs" by simp
    with c have "call_id x \<noteq> call_id c" by (metis imageI)
    with Cons.IH Cons.prems c show ?thesis by simp
  qed
qed

lemma manual_response_loop_Suc:
  assumes "client (conversation_request st) w0 = (response, w)"
      and "process_response loads tm response st w = ((st', outcome), w')"
  shows "manual_response_loop (Suc fuel) client loads tm st w0 =
     (case outcome of
        Break \<Rightarrow> Some (st', w', [response], None)
      | Raised e \<Rightarrow> Some (st', w', [response], Some e)
      | Continue \<Rightarrow>
          (case manual_response_loop fuel client loads tm st' w' of
             None \<Rightarrow> None
           | Some (st'', w'', received, raised) \<Rightarrow>
               Some (st'', w'', response # received, raised)))"
  using assms by simp

lemma response_loop_body_eq:
  "response_loop_body loads tm response w =
     (case invoke_functions_from_response loads tm response w of
        (Inl e, w') \<Rightarrow> (Propagate e, w')
      | (Inr rs, w') \<Rightarrow>
          (if function_calls_of response = []
           then (PrintAndBreak (output_text response), w')
           else (NextRequest \<lparr>request_input = rs,
                              previous_response_id = Some (response_id response)\<rparr>, w')))"
proof (cases "invoke_functions_from_response loads tm response w")
  case (Pair r w')
  show ?thesis
  proof (cases r)
    case (Inl e)
    with Pair show ?thesis by (simp add: response_loop_body_def)
  next
    case (Inr rs)
    with Pair invoke_length [of loads tm response w rs w'] show ?thesis
      by (simp add: response_loop_body_def)
  qed
qed

subsection \<open>The loops\<close>

lemma example_client_first:
  "example_client (conversation_request example_state) 0 = (call_response, 0)"
  by (simp add: example_client_def conversation_request_def example_state_def results_for_def)

lemma example_client_second:
  "example_client (conversation_request after_call_state) (Suc 0) = (final_response, Suc 0)"
  by (simp add: example_client_def conversation_request_def after_call_state_def results_for_def)

lemma process_call_response:
  "process_response example_loads example_tools call_response example_state 0 =
     ((after_call_state, Continue), Suc 0)"
  by (simp add: process_response_def call_response_def example_state_def
      invoke_functions_from_response_def tool_output_of_def try_tool_def
      example_tools_def tool_mapping_def example_loads_def call_get_city_uuid_def
      get_city_uuid_def uuid4_def example_uuid_of_def to_dict_def output_text_def
      after_call_state_def)

lemma process_final_response:
  "process_response example_loads example_tools final_response after_call_state (Suc 0) =
     ((final_state, Break), Suc 0)"
  by (simp add: process_response_def final_response_def after_call_state_def final_state_def
      to_dict_def output_text_def)

lemma function_calls_of_examples:
  "function_calls_of call_response =
     [FunctionToolCall ''{city: London}'' ''call_1'' ''get_city_uuid'' ''fc_1'']"
  "function_calls_of final_response = []"
  "function_calls_of reasoning_only_response = []"
  "messages_of reasoning_only_response = []"
  by (simp_all add: function_calls_of_def messages_of_def call_response_def final_response_def
      reasoning_only_response_def)

lemma manual_response_loop_example:
  "manual_response_loop (Suc (Suc 0)) example_client example_loads example_tools example_state 0 =
     Some (final_state, Suc 0, [call_response, final_response], None)"
  by (simp add: example_client_first example_client_second process_call_response
      process_final_response)

lemma manual_orchestration_example:
  "manual_orchestration (Suc (Suc 0)) example_client example_loads example_tools
     [''get id for city London''] 0 =
       Some (final_state, Suc 0, [call_response, final_response], None)"
proof -
  have "initial_state\<lparr>conversation := conversation initial_state
          @ [UserMessage ''get id for city London'']\<rparr> = example_state"
    by (simp add: initial_state_def example_state_def)
  then show ?thesis
    using manual_response_loop_example
    by (simp add: manual_orchestration_def del: manual_response_loop.simps)
qed

lemma manual_response_loop_extends:
  "manual_response_loop fuel client loads tm st w = Some (st', w', received, raised) \<Longrightarrow>
     \<exists>appended. conversation st' = conversation st @ appended"
proof (induction fuel arbitrary: st w st' w' received raised)
  case 0
  then show ?case by simp
next
  case (Suc fuel)
  obtain response w1 where c: "client (conversation_request st) w = (response, w1)"
    by (cases "client (conversation_request st) w")
  obtain st1 outcome w2 where
    p: "process_response loads tm response st w1 = ((st1, outcome), w2)"
    by (metis prod.exhaust)
  have ext: "\<exists>appended. conversation st1 = conversation st @ appended"
    using process_response_extends [of loads tm response st w1] p by auto
  show ?case
  proof (cases outcome)
    case Break
    with Suc.prems c p have "st' = st1" by simp
    with ext show ?thesis by simp
  next
    case (Raised e)
    with Suc.prems c p have "st' = st1" by simp
    with ext show ?thesis by simp
  next
    case Continue
    with Suc.prems c p obtain received' where
      "manual_response_loop fuel client loads tm st1 w2 = Some (st', w', received', raised)"
      by (auto split: option.splits)
    from Suc.IH [OF this] ext show ?thesis by auto
  qed
qed

lemma manual_response_loop_tokens:
  "manual_response_loop fuel client loads tm st w = Some (st', w', received, raised) \<Longrightarrow>
     total_tokens_used st' = total_tokens_used st + sum_list (map usage_total_tokens received)"
proof (induction fuel arbitrary: st w st' w' received raised)
  case 0
  then show ?case by simp
next
  case (Suc fuel)
  obtain response w1 where c: "client (conversation_request st) w = (response, w1)"
    by (cases "client (conversation_request st) w")
  obtain st1 outcome w2 where
    p: "process_response loads tm response st w1 = ((st1, outcome), w2)"
    by (metis prod.exhaust)
  have t: "total_tokens_used st1 = total_tokens_used st + usage_total_tokens response"
    using process_response_tokens [of loads tm response st w1] p by simp
  show ?case
  proof (cases outcome)
    case Break
    with Suc.prems c p have "st' = st1" "received = [response]" by simp_all
    with t show ?thesis by simp
  next
    case (Raised e)
    with Suc.prems c p have "st' = st1" "received = [response]" by simp_all
    with t show ?thesis by simp
  next
    case Continue
    with Suc.prems c p obtain received' where
      r: "manual_response_loop fuel client loads tm st1 w2 = Some (st', w', received', raised)"
      and "received = response # received'"
      by (auto split: option.splits)
    with Suc.IH [OF r] t show ?thesis by simp
  qed
qed

lemma user_messages_loop_tokens:
  "user_messages_loop fuel client loads tm user_messages st w =
     Some (st', w', received, raised) \<Longrightarrow>
     total_tokens_used st' = total_tokens_used st + sum_list (map usage_total_tokens received)"
proof (induction user_messages arbitrary: st w st' w' received raised)
  case Nil
  then show ?case by simp
next
  case (Cons message rest)
  let ?st = "st\<lparr>conversation := conversation st @ [UserMessage message]\<rparr>"
  from Cons.prems obtain st1 w1 r1 raised1 where
    l: "manual_response_loop fuel client loads tm ?st w = Some (st1, w1, r1, raised1)"
    by (auto split: option.splits)
  have t1: "total_tokens_used st1 =
      total_tokens_used st + sum_list (map usage_total_tokens r1)"
    using manual_response_loop_tokens [OF l] by simp
  show ?case
  proof (cases raised1)
    case (Some e)
    with Cons.prems l have "st' = st1" "received = r1" by simp_all
    with t1 show ?thesis by simp
  next
    case None
    with Cons.prems l obtain r2 where
      u: "user_messages_loop fuel client loads tm rest st1 w1 = Some (st', w', r2, raised)"
      and r: "received = r1 @ r2"
      by (auto split: option.splits)
    from t1 Cons.IH [OF u] r show ?thesis by simp
  qed
qed

subsection \<open>Two runs of one pass\<close>

lemma erase_resolve:
  "resolve_in_order loads tm cs w = (Inr rs, w') \<Longrightarrow>
     map erase_output rs = map (\<lambda>c. FunctionCallOutput (call_id c) []) cs"
  by (induction cs arbitrary: w rs) (auto split: prod.splits sum.splits)

lemma erase_interleaved:
  "length cs = length rs \<Longrightarrow> length cs = length rs' \<Longrightarrow>
   map erase_output rs = map erase_output rs' \<Longrightarrow>
     map erase_output (concat (map (\<lambda>(c, r). [to_dict c, r]) (zip cs rs))) =
     map erase_output (concat (map (\<lambda>(c, r). [to_dict c, r]) (zip cs rs')))"
proof (induction cs rs arbitrary: rs' rule: list_induct2)
  case Nil
  then show ?case by simp
next
  case (Cons c cs r rs)
  then obtain r' rs'' where "rs' = r' # rs''" by (cases rs') auto
  with Cons show ?case by simp
qed

lemma tool_output_of_independent:
  assumes "world_independent tm"
  shows "fst (tool_output_of loads tm c w1) = fst (tool_output_of loads tm c w2)"
proof (cases "tm (name c)")
  case None
  then show ?thesis by (simp add: tool_output_of_def)
next
  case (Some t)
  show ?thesis
  proof (cases "loads (arguments c)")
    case (Inl e)
    with Some show ?thesis
      by (cases e) (simp_all add: tool_output_of_def try_tool_def)
  next
    case (Inr args)
    from assms Some have "fst (call t args w1) = fst (call t args w2)"
      unfolding world_independent_def by blast
    with Some Inr show ?thesis
      by (cases "call t args w1"; cases "call t args w2")
        (auto simp: tool_output_of_def try_tool_def split: sum.splits exn.splits)
  qed
qed

lemma resolve_in_order_independent:
  assumes "world_independent tm"
  shows "fst (resolve_in_order loads tm cs w1) = fst (resolve_in_order loads tm cs w2)"
proof (induction cs arbitrary: w1 w2)
  case Nil
  show ?case by simp
next
  case (Cons c cs)
  obtain r1 v1 where o1: "tool_output_of loads tm c w1 = (r1, v1)"
    by (cases "tool_output_of loads tm c w1")
  obtain r2 v2 where o2: "tool_output_of loads tm c w2 = (r2, v2)"
    by (cases "tool_output_of loads tm c w2")
  from tool_output_of_independent [OF assms, of loads c w1 w2] o1 o2 have r: "r2 = r1" by simp
  show ?case
  proof (cases r1)
    case (Inl e)
    have "tool_output_of loads tm c w1 = (Inl e, v1)" "tool_output_of loads tm c w2 = (Inl e, v2)"
      using o1 o2 r Inl by simp_all
    then show ?thesis by simp
  next
    case (Inr out)
    have t: "tool_output_of loads tm c w1 = (Inr out, v1)"
      "tool_output_of loads tm c w2 = (Inr out, v2)"
      using o1 o2 r Inr by simp_all
    obtain s1 u1 where q1: "resolve_in_order loads tm cs v1 = (s1, u1)"
      by (cases "resolve_in_order loads tm cs v1")
    obtain s2 u2 where q2: "resolve_in_order loads tm cs v2 = (s2, u2)"
      by (cases "resolve_in_order loads tm cs v2")
    from Cons.IH [of v1 v2] q1 q2 have "s2 = s1" by simp
    with q2 have q2': "resolve_in_order loads tm cs v2 = (s1, u2)" by simp
    show ?thesis by (cases s1) (simp_all add: t q1 q2')
  qed
qed

lemma process_response_depends_on_results:
  assumes "fst (invoke_functions_from_response loads tm response w1) =
           fst (invoke_functions_from_response loads tm response w2)"
  shows "fst (process_response loads tm response st w1) =
         fst (process_response loads tm response st w2)"
proof -
  obtain r v1 where i1: "invoke_functions_from_response loads tm response w1 = (r, v1)"
    by (cases "invoke_functions_from_response loads tm response w1")
  with assms obtain v2 where i2: "invoke_functions_from_response loads tm response w2 = (r, v2)"
    by (cases "invoke_functions_from_response loads tm response w2") simp
  show ?thesis
    by (cases r) (simp_all add: process_response_def Let_def i1 i2)
qed

lemma world_independent_fixed_tools: "world_independent fixed_tools"
  by (auto simp: world_independent_def fixed_tools_def fixed_tool_def split: if_splits)

lemma single_call_extraction_raises:
  "single_call_extraction example_loads example_tools mixed_response 0 =
     (Inl (Exception ''ValueError'' ''No tool found for function call: unknown_tool''), Suc 0)"
  by (simp add: single_call_extraction_def mixed_response_def example_tools_def
      tool_mapping_def example_loads_def call_get_city_uuid_def get_city_uuid_def uuid4_def
      example_uuid_of_def)

section \<open>Sequential resolution\<close>

text \<open>
  Claim C9. Tool calls are resolved one at a time, in the order in which the
  \<open>function_call\<close> items appear in the response: the function computes what
  \<open>resolve_in_order\<close> computes on the calls of the response. When it returns a
  list, the list has one entry per call and its i-th entry carries the \<open>call_id\<close>
  of the i-th call. The tool of a call runs in the world that the calls before it
  left, the calls after it in the world that it left, and none runs after a call that
  an exception has left.
\<close>

theorem sequential_resolution:
  "invoke_functions_from_response loads tm response w =
     resolve_in_order loads tm (function_calls_of response) w
   \<and> (\<forall>results w'.
        invoke_functions_from_response loads tm response w = (Inr results, w') \<longrightarrow>
        length results = length (function_calls_of response)
        \<and> (\<forall>i < length (function_calls_of response).
              \<exists>out. results ! i =
                FunctionCallOutput (call_id (function_calls_of response ! i)) out))
   \<and> (\<forall>before item after.
         function_calls_of response = before @ item # after \<longrightarrow>
         invoke_functions_from_response loads tm response w =
           (case resolve_in_order loads tm before w of
              (Inl e, w1) \<Rightarrow> (Inl e, w1)
            | (Inr r1, w1) \<Rightarrow>
                (case tool_output_of loads tm item w1 of
                   (Inl e, w2) \<Rightarrow> (Inl e, w2)
                 | (Inr out, w2) \<Rightarrow>
                     (case resolve_in_order loads tm after w2 of
                        (Inl e, w3) \<Rightarrow> (Inl e, w3)
                      | (Inr r2, w3) \<Rightarrow>
                          (Inr (r1 @ FunctionCallOutput (call_id item) out # r2), w3)))))"
proof -
  have eq: "invoke_functions_from_response loads tm response w =
     resolve_in_order loads tm (function_calls_of response) w"
    by (rule invoke_resolve)
  have ent: "length results = length (function_calls_of response)
        \<and> (\<forall>i < length (function_calls_of response).
              \<exists>out. results ! i =
                FunctionCallOutput (call_id (function_calls_of response ! i)) out)"
    if "invoke_functions_from_response loads tm response w = (Inr results, w')"
    for results w'
  proof -
    from that have r: "resolve_in_order loads tm (function_calls_of response) w = (Inr results, w')"
      by (simp add: eq)
    from resolve_in_order_length [OF r] resolve_in_order_nth [OF r] show ?thesis by blast
  qed
  have split: "invoke_functions_from_response loads tm response w =
           (case resolve_in_order loads tm before w of
              (Inl e, w1) \<Rightarrow> (Inl e, w1)
            | (Inr r1, w1) \<Rightarrow>
                (case tool_output_of loads tm item w1 of
                   (Inl e, w2) \<Rightarrow> (Inl e, w2)
                 | (Inr out, w2) \<Rightarrow>
                     (case resolve_in_order loads tm after w2 of
                        (Inl e, w3) \<Rightarrow> (Inl e, w3)
                      | (Inr r2, w3) \<Rightarrow>
                          (Inr (r1 @ FunctionCallOutput (call_id item) out # r2), w3))))"
    if "function_calls_of response = before @ item # after" for before item after
    using that by (simp add: eq resolve_in_order_append split: prod.splits sum.splits)
  from eq ent split show ?thesis by blast
qed

theorem sequential_resolution_witness:
  "invoke_functions_from_response example_loads example_tools mixed_response 0 =
     (Inr [FunctionCallOutput ''call_1'' ''London ID: ce863d03'',
           FunctionCallOutput ''call_2''
             ''ERROR - No tool registered for function call: unknown_tool'',
           FunctionCallOutput ''call_3''
             ''Error executing function call: get_city_uuid: Expecting value: line 1 column 1 (char 0)'',
           FunctionCallOutput ''call_4''
             ''Error executing function call: get_population: database unavailable'',
           FunctionCallOutput ''call_5''
             (''Error executing function call: get_city_uuid: ''
                @ ''get_city_uuid() got an unexpected keyword argument ''
                @ [CHR 0x27] @ ''town'' @ [CHR 0x27])], Suc 0)
   \<and> (2::nat) < length (function_calls_of mixed_response)
   \<and> call_id (function_calls_of mixed_response ! 2) = ''call_3''
   \<and> resolve_in_order example_loads example_tools (function_calls_of mixed_response) 0 =
       invoke_functions_from_response example_loads example_tools mixed_response 0"
  using sequential_resolution [of example_loads example_tools mixed_response 0]
    invoke_mixed_response
  by (simp add: function_calls_of_mixed_response)

section \<open>Unregistered tools\<close>

text \<open>
  Claim C2. A \<open>function_call\<close> whose name is not in the registry yields, without
  raising and without touching the world, the text
  \<open>ERROR - No tool registered for function call: \<close> followed by the name. The
  function puts it in its list under the \<open>call_id\<close> of the call, between the
  results of the calls before it and of those after it, and a pass of the manual loop
  that completes appends it to the conversation. The first extraction
  (\<open>single_call_extraction\<close>) raises \<open>ValueError\<close> here instead.
\<close>

theorem unregistered_tool_is_reported:
  assumes "response_output response = before @ item # after"
      and "item_type item = ''function_call''"
      and "tm (name item) = None"
  shows "tool_output_of loads tm item w0 =
           (Inr (''ERROR - No tool registered for function call: '' @ name item), w0)
   \<and> invoke_functions_from_response loads tm response w =
     (case invoke_functions_from_response loads tm (response\<lparr>response_output := before\<rparr>) w of
        (Inl e, w1) \<Rightarrow> (Inl e, w1)
      | (Inr r1, w1) \<Rightarrow>
          (case invoke_functions_from_response loads tm
                  (response\<lparr>response_output := after\<rparr>) w1 of
             (Inl e, w2) \<Rightarrow> (Inl e, w2)
           | (Inr r2, w2) \<Rightarrow>
               (Inr (r1 @ FunctionCallOutput (call_id item)
                            (''ERROR - No tool registered for function call: '' @ name item)
                          # r2), w2)))
   \<and> (\<forall>st' outcome w'.
        process_response loads tm response st w = ((st', outcome), w') \<longrightarrow>
        completes outcome \<longrightarrow>
        FunctionCallOutput (call_id item)
          (''ERROR - No tool registered for function call: '' @ name item)
        \<in> set (appended_items st st'))"
proof -
  let ?msg = "''ERROR - No tool registered for function call: '' @ name item"
  have out: "tool_output_of loads tm item w0 = (Inr ?msg, w0)" for w0
    using assms(3) by (rule tool_output_of_unregistered)
  have first: "invoke_functions_from_response loads tm response w =
     (case invoke_functions_from_response loads tm (response\<lparr>response_output := before\<rparr>) w of
        (Inl e, w1) \<Rightarrow> (Inl e, w1)
      | (Inr r1, w1) \<Rightarrow>
          (case invoke_functions_from_response loads tm
                  (response\<lparr>response_output := after\<rparr>) w1 of
             (Inl e, w2) \<Rightarrow> (Inl e, w2)
           | (Inr r2, w2) \<Rightarrow>
               (Inr (r1 @ FunctionCallOutput (call_id item) ?msg # r2), w2)))"
    using invoke_split [OF assms(1,2), of loads tm w]
    by (simp add: out split: prod.splits sum.splits)
  have mem: "FunctionCallOutput (call_id item) ?msg \<in> set (appended_items st st')"
    if p: "process_response loads tm response st w = ((st', outcome), w')"
      and c: "completes outcome" for st' outcome w'
  proof -
    from completed_pass_results [OF p c] obtain rs where
      i: "invoke_functions_from_response loads tm response w = (Inr rs, w')"
      and sub: "set rs \<subseteq> set (appended_items st st')"
      by blast
    from i first have "FunctionCallOutput (call_id item) ?msg \<in> set rs"
      by (auto split: prod.splits sum.splits)
    with sub show ?thesis by blast
  qed
  from out first mem show ?thesis by blast
qed

theorem unregistered_tool_is_reported_witness:
  "response_output mixed_response =
     [ReasoningItem ''rs_1'' [''plan''],
      FunctionToolCall ''{city: London}'' ''call_1'' ''get_city_uuid'' ''fc_1'']
     @ FunctionToolCall ''{city: London}'' ''call_2'' ''unknown_tool'' ''fc_2''
     # [OutputMessage ''msg_1'' [''looking up''],
        FunctionToolCall ''not json'' ''call_3'' ''get_city_uuid'' ''fc_3'',
        FunctionToolCall ''{city: London}'' ''call_4'' ''get_population'' ''fc_4'',
        OtherItem WebSearchCall ''ws_1'',
        FunctionToolCall ''{town: London}'' ''call_5'' ''get_city_uuid'' ''fc_5'']
   \<and> item_type (FunctionToolCall ''{city: London}'' ''call_2'' ''unknown_tool'' ''fc_2'')
       = ''function_call''
   \<and> example_tools ''unknown_tool'' = None
   \<and> process_response example_loads example_tools mixed_response example_state 0 =
       ((after_mixed_state, Continue), Suc 0)
   \<and> completes Continue
   \<and> FunctionCallOutput ''call_2'' ''ERROR - No tool registered for function call: unknown_tool''
       \<in> set (appended_items example_state after_mixed_state)"
proof -
  have h1: "response_output mixed_response =
     [ReasoningItem ''rs_1'' [''plan''],
      FunctionToolCall ''{city: London}'' ''call_1'' ''get_city_uuid'' ''fc_1'']
     @ FunctionToolCall ''{city: London}'' ''call_2'' ''unknown_tool'' ''fc_2''
     # [OutputMessage ''msg_1'' [''looking up''],
        FunctionToolCall ''not json'' ''call_3'' ''get_city_uuid'' ''fc_3'',
        FunctionToolCall ''{city: London}'' ''call_4'' ''get_population'' ''fc_4'',
        OtherItem WebSearchCall ''ws_1'',
        FunctionToolCall ''{town: London}'' ''call_5'' ''get_city_uuid'' ''fc_5'']"
    by (simp add: mixed_response_def)
  have h2: "item_type (FunctionToolCall ''{city: London}'' ''call_2'' ''unknown_tool'' ''fc_2'')
       = ''function_call''"
    by simp
  have h3: "example_tools
      (name (FunctionToolCall ''{city: London}'' ''call_2'' ''unknown_tool'' ''fc_2'')) = None"
    by (simp add: example_tools_def tool_mapping_def)
  have "FunctionCallOutput ''call_2'' ''ERROR - No tool registered for function call: unknown_tool''
       \<in> set (appended_items example_state after_mixed_state)"
    using unregistered_tool_is_reported [where tm = example_tools and loads = example_loads
        and st = example_state and w = 0, OF h1 h2 h3]
      process_response_mixed_response
    by simp
  with h1 h2 h3 process_response_mixed_response show ?thesis by simp
qed

section \<open>Failing tools and malformed arguments\<close>

text \<open>
  Claim C3, as amended. The handler is \<open>except Exception\<close>. Take a call whose tool
  is registered and true under the truth test, the calls before it having returned.
  When \<open>json.loads\<close> raises on its arguments, or the tool raises when called, an
  exception of class \<open>Exception\<close>, the call yields, without raising, the text
  \<open>Error executing function call: \<close>, the name, \<open>: \<close> and the text of the
  exception; the function puts it in its list under the \<open>call_id\<close> of the call,
  the calls after it are resolved from the world the failing call left, and a pass of
  the manual loop that completes appends the result to the conversation. When what is
  raised is outside class \<open>Exception\<close>, it leaves the function: there is no list,
  the calls after it are not resolved, and the pass of the manual loop ends with that
  exception, having appended the reasoning items only. A list that is returned has one
  entry per call.
\<close>

theorem tool_failure_is_reported:
  assumes "response_output response = before @ item # after"
      and "item_type item = ''function_call''"
      and "tm (name item) = Some target_tool"
      and "truthy target_tool"
      and "invoke_functions_from_response loads tm
             (response\<lparr>response_output := before\<rparr>) w = (Inr r1, w1)"
  shows "(\<forall>c s w2.
          (loads (arguments item) = Inl (Exception c s) \<and> w2 = w1)
          \<or> (\<exists>args. loads (arguments item) = Inr args
               \<and> call target_tool args w1 = (Inl (Exception c s), w2)) \<longrightarrow>
          tool_output_of loads tm item w1 =
            (Inr (''Error executing function call: '' @ name item @ '': '' @ s), w2)
          \<and> invoke_functions_from_response loads tm response w =
              (case invoke_functions_from_response loads tm
                      (response\<lparr>response_output := after\<rparr>) w2 of
                 (Inl e, w3) \<Rightarrow> (Inl e, w3)
               | (Inr r2, w3) \<Rightarrow>
                   (Inr (r1 @ FunctionCallOutput (call_id item)
                                (''Error executing function call: '' @ name item @ '': '' @ s)
                              # r2), w3))
          \<and> (\<forall>st' outcome w'.
                process_response loads tm response st w = ((st', outcome), w') \<longrightarrow>
                completes outcome \<longrightarrow>
                FunctionCallOutput (call_id item)
                  (''Error executing function call: '' @ name item @ '': '' @ s)
                \<in> set (appended_items st st')))
   \<and> (\<forall>c s w2.
          (loads (arguments item) = Inl (BaseException c s) \<and> w2 = w1)
          \<or> (\<exists>args. loads (arguments item) = Inr args
               \<and> call target_tool args w1 = (Inl (BaseException c s), w2)) \<longrightarrow>
          invoke_functions_from_response loads tm response w = (Inl (BaseException c s), w2)
          \<and> (\<forall>st' outcome w'.
                process_response loads tm response st w = ((st', outcome), w') \<longrightarrow>
                outcome = Raised (BaseException c s) \<and> w' = w2
                \<and> appended_items st st' = map to_dict (reasoning_of response)))
   \<and> (\<forall>rs w3.
          invoke_functions_from_response loads tm response w = (Inr rs, w3) \<longrightarrow>
          length rs = length (function_calls_of response))"
proof -
  have caught: "tool_output_of loads tm item w1 =
            (Inr (''Error executing function call: '' @ name item @ '': '' @ s), w2)
          \<and> invoke_functions_from_response loads tm response w =
              (case invoke_functions_from_response loads tm
                      (response\<lparr>response_output := after\<rparr>) w2 of
                 (Inl e, w3) \<Rightarrow> (Inl e, w3)
               | (Inr r2, w3) \<Rightarrow>
                   (Inr (r1 @ FunctionCallOutput (call_id item)
                                (''Error executing function call: '' @ name item @ '': '' @ s)
                              # r2), w3))
          \<and> (\<forall>st' outcome w'.
                process_response loads tm response st w = ((st', outcome), w') \<longrightarrow>
                completes outcome \<longrightarrow>
                FunctionCallOutput (call_id item)
                  (''Error executing function call: '' @ name item @ '': '' @ s)
                \<in> set (appended_items st st'))"
    if h: "(loads (arguments item) = Inl (Exception c s) \<and> w2 = w1)
          \<or> (\<exists>args. loads (arguments item) = Inr args
               \<and> call target_tool args w1 = (Inl (Exception c s), w2))"
    for c s w2
  proof -
    let ?msg = "''Error executing function call: '' @ name item @ '': '' @ s"
    have out: "tool_output_of loads tm item w1 = (Inr ?msg, w2)"
      using assms(3,4) h by (rule tool_output_of_caught)
    have first: "invoke_functions_from_response loads tm response w =
              (case invoke_functions_from_response loads tm
                      (response\<lparr>response_output := after\<rparr>) w2 of
                 (Inl e, w3) \<Rightarrow> (Inl e, w3)
               | (Inr r2, w3) \<Rightarrow>
                   (Inr (r1 @ FunctionCallOutput (call_id item) ?msg # r2), w3))"
      using invoke_split [OF assms(1,2), of loads tm w] assms(5)
      by (simp add: out split: prod.splits sum.splits)
    have mem: "FunctionCallOutput (call_id item) ?msg \<in> set (appended_items st st')"
      if p: "process_response loads tm response st w = ((st', outcome), w')"
        and c: "completes outcome" for st' outcome w'
    proof -
      from completed_pass_results [OF p c] obtain rs where
        i: "invoke_functions_from_response loads tm response w = (Inr rs, w')"
        and sub: "set rs \<subseteq> set (appended_items st st')"
        by blast
      from i first have "FunctionCallOutput (call_id item) ?msg \<in> set rs"
        by (auto split: prod.splits sum.splits)
      with sub show ?thesis by blast
    qed
    from out first mem show ?thesis by blast
  qed
  have passed: "invoke_functions_from_response loads tm response w =
            (Inl (BaseException c s), w2)
          \<and> (\<forall>st' outcome w'.
                process_response loads tm response st w = ((st', outcome), w') \<longrightarrow>
                outcome = Raised (BaseException c s) \<and> w' = w2
                \<and> appended_items st st' = map to_dict (reasoning_of response))"
    if h: "(loads (arguments item) = Inl (BaseException c s) \<and> w2 = w1)
          \<or> (\<exists>args. loads (arguments item) = Inr args
               \<and> call target_tool args w1 = (Inl (BaseException c s), w2))"
    for c s w2
  proof -
    have out: "tool_output_of loads tm item w1 = (Inl (BaseException c s), w2)"
      using assms(3,4) h by (rule tool_output_of_propagated)
    have i: "invoke_functions_from_response loads tm response w = (Inl (BaseException c s), w2)"
      using invoke_split [OF assms(1,2), of loads tm w] assms(5) by (simp add: out)
    have "outcome = Raised (BaseException c s) \<and> w' = w2
                \<and> appended_items st st' = map to_dict (reasoning_of response)"
      if p: "process_response loads tm response st w = ((st', outcome), w')"
      for st' outcome w'
      using process_response_raised(2) [OF i, of st] process_response_world [of loads tm response st w]
        appended_items_raised [OF i, of st] i p
      by simp
    with i show ?thesis by blast
  qed
  have len: "length rs = length (function_calls_of response)"
    if "invoke_functions_from_response loads tm response w = (Inr rs, w3)" for rs w3
    using that by (rule invoke_length)
  from caught passed len show ?thesis by blast
qed

theorem tool_failure_is_reported_witness:
  "(example_loads ''{city: London}'' = Inr [(''city'', ''London'')]
    \<and> failing_tool [(''city'', ''London'')] (Suc 0)
        = (Inl (Exception ''RuntimeError'' ''database unavailable''), Suc 0)
    \<and> process_response example_loads example_tools mixed_response example_state 0 =
        ((after_mixed_state, Continue), Suc 0)
    \<and> FunctionCallOutput ''call_4''
         ''Error executing function call: get_population: database unavailable''
       \<in> set (appended_items example_state after_mixed_state))
   \<and> (exiting_tool [(''city'', ''London'')] 0 = (Inl (BaseException ''SystemExit'' ''1''), 0)
    \<and> invoke_functions_from_response example_loads exiting_tools exit_response 0 =
        (Inl (BaseException ''SystemExit'' ''1''), 0))"
proof -
  let ?c1 = "FunctionToolCall ''{city: London}'' ''call_1'' ''get_city_uuid'' ''fc_1''"
  let ?c2 = "FunctionToolCall ''{city: London}'' ''call_2'' ''unknown_tool'' ''fc_2''"
  let ?c3 = "FunctionToolCall ''not json'' ''call_3'' ''get_city_uuid'' ''fc_3''"
  let ?c4 = "FunctionToolCall ''{city: London}'' ''call_4'' ''get_population'' ''fc_4''"
  let ?c5 = "FunctionToolCall ''{town: London}'' ''call_5'' ''get_city_uuid'' ''fc_5''"
  let ?m = "OutputMessage ''msg_1'' [''looking up'']"
  let ?r = "ReasoningItem ''rs_1'' [''plan'']"
  let ?o = "OtherItem WebSearchCall ''ws_1''"
  let ?x1 = "FunctionToolCall ''{city: London}'' ''call_1'' ''shutdown'' ''fc_1''"
  let ?x2 = "FunctionToolCall ''{city: London}'' ''call_2'' ''get_city_uuid'' ''fc_2''"
  have b1: "response_output mixed_response = [?r, ?c1, ?c2, ?m, ?c3] @ ?c4 # [?o, ?c5]"
    by (simp add: mixed_response_def)
  have b2: "item_type ?c4 = ''function_call''" by simp
  have b3: "example_tools (name ?c4) = Some (Tool True failing_tool)"
    by (simp add: example_tools_def tool_mapping_def)
  have b3': "truthy (Tool True failing_tool :: (arguments, nat) tool)" by simp
  have b4: "invoke_functions_from_response example_loads example_tools
             (mixed_response\<lparr>response_output := [?r, ?c1, ?c2, ?m, ?c3]\<rparr>) 0 =
            (Inr [FunctionCallOutput ''call_1'' ''London ID: ce863d03'',
              FunctionCallOutput ''call_2''
                ''ERROR - No tool registered for function call: unknown_tool'',
              FunctionCallOutput ''call_3''
                ''Error executing function call: get_city_uuid: Expecting value: line 1 column 1 (char 0)''], Suc 0)"
    by (simp add: invoke_functions_from_response_def tool_output_of_def try_tool_def
        example_tools_def tool_mapping_def example_loads_def call_get_city_uuid_def
        get_city_uuid_def uuid4_def example_uuid_of_def)
  have b5: "example_loads ''{city: London}'' = Inr [(''city'', ''London'')]"
    by (simp add: example_loads_def)
  have b6: "failing_tool [(''city'', ''London'')] (Suc 0)
          = (Inl (Exception ''RuntimeError'' ''database unavailable''), Suc 0)"
    by (simp add: failing_tool_def)
  have b7: "(example_loads (arguments ?c4) =
      Inl (Exception ''RuntimeError'' ''database unavailable'') \<and> Suc 0 = Suc 0)
    \<or> (\<exists>args. example_loads (arguments ?c4) = Inr args \<and>
         call (Tool True failing_tool) args (Suc 0) =
           (Inl (Exception ''RuntimeError'' ''database unavailable''), Suc 0))"
    using b5 b6 by simp
  have first: "FunctionCallOutput ''call_4''
         ''Error executing function call: get_population: database unavailable''
       \<in> set (appended_items example_state after_mixed_state)"
    using tool_failure_is_reported [where tm = example_tools and loads = example_loads
        and st = example_state and w = 0, OF b1 b2 b3 b3' b4] b7
      process_response_mixed_response
    by fastforce
  have x1: "response_output exit_response = [] @ ?x1 # [?x2]"
    by (simp add: exit_response_def)
  have x2: "item_type ?x1 = ''function_call''" by simp
  have x3: "exiting_tools (name ?x1) = Some (Tool True exiting_tool)"
    by (simp add: exiting_tools_def tool_mapping_def)
  have x3': "truthy (Tool True exiting_tool :: (arguments, nat) tool)" by simp
  have x4: "invoke_functions_from_response example_loads exiting_tools
             (exit_response\<lparr>response_output := []\<rparr>) 0 = (Inr [], 0)"
    by (simp add: invoke_functions_from_response_def)
  have x6: "exiting_tool [(''city'', ''London'')] 0 = (Inl (BaseException ''SystemExit'' ''1''), 0)"
    by (simp add: exiting_tool_def)
  have x7: "(example_loads (arguments ?x1) = Inl (BaseException ''SystemExit'' ''1'') \<and> (0::nat) = 0)
    \<or> (\<exists>args. example_loads (arguments ?x1) = Inr args \<and>
         call (Tool True exiting_tool) args 0 = (Inl (BaseException ''SystemExit'' ''1''), 0))"
    using b5 x6 by simp
  have second: "invoke_functions_from_response example_loads exiting_tools exit_response 0 =
        (Inl (BaseException ''SystemExit'' ''1''), 0)"
    using tool_failure_is_reported [where tm = exiting_tools and loads = example_loads
        and st = example_state and w = 0, OF x1 x2 x3 x3' x4] x7
    by blast
  from first second b5 b6 x6 process_response_mixed_response show ?thesis by simp
qed

text \<open>
  Counterexample to claim C3 as stated, that no exception raised by a registered tool
  reaches the caller: a tool that calls \<open>sys.exit(1)\<close> raises \<open>SystemExit\<close>,
  which \<open>except Exception\<close> does not catch. The function returns no result for the
  call, the second call of the response is never made (no identifier is drawn), and
  the manual loop ends with the exception.
\<close>

theorem uncaught_exception_counterexample:
  "exiting_tools ''shutdown'' = Some (Tool True exiting_tool)
   \<and> exiting_tool [(''city'', ''London'')] 0 = (Inl (BaseException ''SystemExit'' ''1''), 0)
   \<and> invoke_functions_from_response example_loads exiting_tools exit_response 0 =
       (Inl (BaseException ''SystemExit'' ''1''), 0)
   \<and> process_response example_loads exiting_tools exit_response example_state 0 =
       ((example_state\<lparr>total_tokens_used := 90\<rparr>, Raised (BaseException ''SystemExit'' ''1'')), 0)
   \<and> manual_response_loop (Suc 0) exit_client example_loads exiting_tools example_state 0 =
       Some (example_state\<lparr>total_tokens_used := 90\<rparr>, 0, [exit_response],
             Some (BaseException ''SystemExit'' ''1''))"
proof -
  have a: "exiting_tools ''shutdown'' = Some (Tool True exiting_tool)"
    by (simp add: exiting_tools_def tool_mapping_def)
  have b: "exiting_tool [(''city'', ''London'')] 0 = (Inl (BaseException ''SystemExit'' ''1''), 0)"
    by (simp add: exiting_tool_def)
  have c: "manual_response_loop (Suc 0) exit_client example_loads exiting_tools example_state 0 =
       Some (example_state\<lparr>total_tokens_used := 90\<rparr>, 0, [exit_response],
             Some (BaseException ''SystemExit'' ''1''))"
    by (simp add: exit_client_def process_response_exit_response)
  from a b c invoke_exit_response process_response_exit_response show ?thesis by simp
qed

section \<open>Round-trip completeness\<close>

text \<open>
  Claim C1. One pass of the manual loop over a response leaves a conversation, the
  input of the next request, that is the old one followed by the appended items. When
  the pass completes, the results among these under a given \<open>call_id\<close> are as many
  as the calls of the response under that \<open>call_id\<close>, so exactly one for each call
  when the calls have different identifiers, as the service issues them. Nothing is
  assumed of the registry, of \<open>json.loads\<close> or of the tools: the count is the same
  for a registered, an unregistered and a raising tool. When the pass ends with an
  exception that the handler does not catch, the loop ends with it and issues no
  further request. In the loop with \<open>previous_response_id\<close> the input of the
  next request has the same counts.
\<close>

theorem round_trip_completeness:
  assumes "process_response loads tm response st w = ((st', outcome), w')"
  shows "request_input (conversation_request st') = conversation st @ appended_items st st'
   \<and> (completes outcome \<longrightarrow>
        (\<forall>cid. length (results_for cid (appended_items st st')) =
               length (filter (\<lambda>c. call_id c = cid) (function_calls_of response)))
        \<and> (distinct (map call_id (function_calls_of response)) \<longrightarrow>
             (\<forall>c \<in> set (function_calls_of response).
                length (results_for (call_id c) (appended_items st st')) = 1)))
   \<and> (\<forall>e client w0 fuel.
        outcome = Raised e \<longrightarrow> client (conversation_request st) w0 = (response, w) \<longrightarrow>
        manual_response_loop (Suc fuel) client loads tm st w0 =
          Some (st', w', [response], Some e))
   \<and> (\<forall>cid req w''. response_loop_body loads tm response w = (NextRequest req, w'') \<longrightarrow>
         length (results_for cid (request_input req)) =
           length (filter (\<lambda>c. call_id c = cid) (function_calls_of response)))"
proof -
  have st': "st' = fst (fst (process_response loads tm response st w))"
    and out: "outcome = snd (fst (process_response loads tm response st w))"
    using assms by simp_all
  have a: "request_input (conversation_request st') = conversation st @ appended_items st st'"
    using process_response_extends [of loads tm response st w]
    by (simp add: st' conversation_request_def)
  have b: "length (results_for cid (appended_items st st')) =
              length (filter (\<lambda>c. call_id c = cid) (function_calls_of response))"
    if "completes outcome" for cid
  proof -
    from that obtain rs w1 where
      "invoke_functions_from_response loads tm response w = (Inr rs, w1)"
      unfolding out process_response_completes by blast
    then show ?thesis by (simp add: st' results_for_appended)
  qed
  have c: "length (results_for (call_id c) (appended_items st st')) = 1"
    if "completes outcome" and "distinct (map call_id (function_calls_of response))"
      and "c \<in> set (function_calls_of response)" for c
    using b [OF that(1), of "call_id c"] distinct_call_ids_once [OF that(2,3)] by simp
  have r: "manual_response_loop (Suc fuel) client loads tm st w0 =
          Some (st', w', [response], Some e)"
    if "outcome = Raised e" and "client (conversation_request st) w0 = (response, w)"
    for e client w0 fuel
    using manual_response_loop_Suc [where client = client and fuel = fuel, OF that(2) assms]
      that(1)
    by simp
  have d: "length (results_for cid (request_input req)) =
           length (filter (\<lambda>c. call_id c = cid) (function_calls_of response))"
    if "response_loop_body loads tm response w = (NextRequest req, w'')" for cid req w''
  proof -
    from that obtain rs where
      "invoke_functions_from_response loads tm response w = (Inr rs, w'')"
      and "request_input req = rs"
      by (auto simp: response_loop_body_eq split: prod.splits sum.splits if_splits)
    then show ?thesis using results_for_invoke [of loads tm response w rs w'' cid] by simp
  qed
  from a b c r d show ?thesis by blast
qed

theorem round_trip_completeness_witness:
  "process_response example_loads example_tools mixed_response example_state 0 =
     ((after_mixed_state, Continue), Suc 0)
   \<and> completes Continue
   \<and> distinct (map call_id (function_calls_of mixed_response))
   \<and> FunctionToolCall ''not json'' ''call_3'' ''get_city_uuid'' ''fc_3''
       \<in> set (function_calls_of mixed_response)
   \<and> length (results_for ''call_3'' (appended_items example_state after_mixed_state)) = 1"
proof -
  have d: "distinct (map call_id (function_calls_of mixed_response))"
    by (simp add: function_calls_of_mixed_response)
  have m: "FunctionToolCall ''not json'' ''call_3'' ''get_city_uuid'' ''fc_3''
       \<in> set (function_calls_of mixed_response)"
    by (simp add: function_calls_of_mixed_response)
  have "length (results_for ''call_3'' (appended_items example_state after_mixed_state)) = 1"
    using round_trip_completeness [OF process_response_mixed_response] d m by fastforce
  with d m process_response_mixed_response show ?thesis by simp
qed

section \<open>Order of the appended items\<close>

text \<open>
  Claim C4. The items appended by a pass that completes are, in this order: the
  reasoning items, then for each function call in the order of the response the call
  followed by a result under its \<open>call_id\<close>, then the message items. A pass that
  an exception ends has appended the reasoning items.
\<close>

theorem appended_order:
  assumes "process_response loads tm response st w = ((st', outcome), w')"
  shows "(completes outcome \<longrightarrow>
      (\<exists>outs. length outs = length (function_calls_of response)
         \<and> conversation st' =
             conversation st
             @ map to_dict (reasoning_of response)
             @ concat (map (\<lambda>(c, out). [to_dict c, FunctionCallOutput (call_id c) out])
                 (zip (function_calls_of response) outs))
             @ map to_dict (messages_of response)))
   \<and> (\<forall>e. outcome = Raised e \<longrightarrow>
         conversation st' = conversation st @ map to_dict (reasoning_of response))"
proof -
  let ?cs = "function_calls_of response"
  have st': "st' = fst (fst (process_response loads tm response st w))"
    and out: "outcome = snd (fst (process_response loads tm response st w))"
    using assms by simp_all
  have pairs: "length cs = length outs \<Longrightarrow>
      concat (map (\<lambda>(c, r). [to_dict c, r])
        (zip cs (map (\<lambda>(c, out). FunctionCallOutput (call_id c) out) (zip cs outs)))) =
      concat (map (\<lambda>(c, out). [to_dict c, FunctionCallOutput (call_id c) out]) (zip cs outs))"
    for cs :: "response_item list" and outs
    by (induction cs outs rule: list_induct2) simp_all
  have a: "\<exists>outs. length outs = length ?cs
         \<and> conversation st' =
             conversation st
             @ map to_dict (reasoning_of response)
             @ concat (map (\<lambda>(c, out). [to_dict c, FunctionCallOutput (call_id c) out])
                 (zip ?cs outs))
             @ map to_dict (messages_of response)"
    if "completes outcome"
  proof -
    from that obtain rs w1 where
      i: "invoke_functions_from_response loads tm response w = (Inr rs, w1)"
      unfolding out process_response_completes by blast
    let ?outs = "map out_output rs"
    have len: "length ?outs = length ?cs"
      using invoke_length [OF i] by simp
    have rs: "rs = map (\<lambda>(c, out). FunctionCallOutput (call_id c) out) (zip ?cs ?outs)"
      using i resolve_in_order_shape [of loads tm ?cs w rs w1] by (simp add: invoke_resolve)
    have "conversation st' =
             conversation st
             @ map to_dict (reasoning_of response)
             @ concat (map (\<lambda>(c, r). [to_dict c, r]) (zip ?cs rs))
             @ map to_dict (messages_of response)"
      using process_response_completed(1) [OF i, of st] by (simp add: st')
    also have "concat (map (\<lambda>(c, r). [to_dict c, r]) (zip ?cs rs)) =
      concat (map (\<lambda>(c, out). [to_dict c, FunctionCallOutput (call_id c) out]) (zip ?cs ?outs))"
      using pairs [of ?cs ?outs] len rs by simp
    finally show ?thesis using len by blast
  qed
  have b: "conversation st' = conversation st @ map to_dict (reasoning_of response)"
    if "outcome = Raised e" for e
  proof -
    from that have "\<not> completes outcome" by simp
    then obtain e' w1 where
      i: "invoke_functions_from_response loads tm response w = (Inl e', w1)"
      unfolding out process_response_completes
      by (cases "invoke_functions_from_response loads tm response w")
        (metis sum.exhaust_sel sum.collapse(1) old.prod.exhaust obj_sumE)
    show ?thesis using process_response_raised(1) [OF i, of st] by (simp add: st')
  qed
  from a b show ?thesis by blast
qed

theorem appended_order_witness:
  "process_response example_loads example_tools mixed_response example_state 0 =
     ((after_mixed_state, Continue), Suc 0)
   \<and> completes Continue
   \<and> (\<exists>outs. length outs = length (function_calls_of mixed_response)
     \<and> conversation after_mixed_state =
         conversation example_state
         @ map to_dict (reasoning_of mixed_response)
         @ concat (map (\<lambda>(c, out). [to_dict c, FunctionCallOutput (call_id c) out])
             (zip (function_calls_of mixed_response) outs))
         @ map to_dict (messages_of mixed_response))"
  using appended_order [OF process_response_mixed_response] process_response_mixed_response
  by simp

section \<open>The conversation only grows\<close>

text \<open>
  Claim C6. One pass over a response keeps every item of the conversation in its
  place and adds items only at the end: the new conversation is the old one followed
  by further items, and its first items are the old conversation. The same holds for
  the whole response loop of a user message when it ends, however it ends.
\<close>

theorem conversation_only_grows:
  "(\<exists>appended. conversation (fst (fst (process_response loads tm response st w))) =
       conversation st @ appended)
   \<and> take (length (conversation st))
        (conversation (fst (fst (process_response loads tm response st w)))) = conversation st
   \<and> (\<forall>st' w' received raised.
        manual_response_loop fuel client loads tm st w = Some (st', w', received, raised) \<longrightarrow>
        take (length (conversation st)) (conversation st') = conversation st)"
proof -
  have a: "\<exists>appended. conversation (fst (fst (process_response loads tm response st w))) =
       conversation st @ appended"
    using process_response_extends [of loads tm response st w] by blast
  then have b: "take (length (conversation st))
        (conversation (fst (fst (process_response loads tm response st w)))) = conversation st"
    by auto
  have c: "take (length (conversation st)) (conversation st') = conversation st"
    if "manual_response_loop fuel client loads tm st w = Some (st', w', received, raised)"
    for st' w' received raised
    using manual_response_loop_extends [OF that] by auto
  from a b c show ?thesis by blast
qed

theorem conversation_only_grows_witness:
  "manual_response_loop (Suc (Suc 0)) example_client example_loads example_tools example_state 0 =
     Some (final_state, Suc 0, [call_response, final_response], None)
   \<and> take (length (conversation example_state)) (conversation final_state) =
       conversation example_state"
  using conversation_only_grows [of example_loads example_tools call_response example_state 0
      "Suc (Suc 0)" example_client]
    manual_response_loop_example
  by simp

section \<open>When a turn ends\<close>

text \<open>
  Claim C5, as amended. A pass leaves the loop by \<open>break\<close> exactly when the
  response has no \<open>function_call\<close> item. In that case no further request is made
  (the manual loop returns with this response as the last one received) and the
  message text \<open>output_text\<close> is given out: the loop with
  \<open>previous_response_id\<close> returns it. When there are function calls and the pass
  completes, the loop goes on: its next step is a request whose input holds the
  results of exactly this response's calls, one per call (the conversation with them
  appended in the manual loop, the results alone in the loop with
  \<open>previous_response_id\<close>, which gives out no text then). The manual loop prints
  the message text of every response that has a message item and whose pass
  completes, whether or not the response has function calls.
\<close>

theorem turn_ends_without_function_calls:
  assumes "client (conversation_request st) w0 = (response, w)"
      and "process_response loads tm response st w = ((st', outcome), w')"
  shows "(outcome = Break) = (function_calls_of response = [])
   \<and> (completes outcome \<longrightarrow>
        printed_text st' =
          printed_text st @ (if messages_of response = [] then [] else [output_text response]))
   \<and> (function_calls_of response = [] \<longrightarrow>
        manual_response_loop (Suc fuel) client loads tm st w0 =
          Some (st', w', [response], None)
        \<and> response_loop (Suc fuel) client loads tm response w =
            Some (Inr (output_text response), w))
   \<and> (outcome = Continue \<longrightarrow>
        (\<exists>results.
           invoke_functions_from_response loads tm response w = (Inr results, w')
           \<and> length results = length (function_calls_of response)
           \<and> set results \<subseteq> set (request_input (conversation_request st'))
           \<and> response_loop_body loads tm response w =
               (NextRequest \<lparr>request_input = results,
                             previous_response_id = Some (response_id response)\<rparr>, w')
           \<and> response_loop (Suc fuel) client loads tm response w =
               (let (response2, w2) =
                      client \<lparr>request_input = results,
                              previous_response_id = Some (response_id response)\<rparr> w'
                in response_loop fuel client loads tm response2 w2))
        \<and> manual_response_loop (Suc (Suc fuel)) client loads tm st w0 =
            (let (response2, w2) = client (conversation_request st') w';
                 ((st2, outcome2), w3) = process_response loads tm response2 st' w2
             in case outcome2 of
                  Break \<Rightarrow> Some (st2, w3, [response, response2], None)
                | Raised e \<Rightarrow> Some (st2, w3, [response, response2], Some e)
                | Continue \<Rightarrow>
                    (case manual_response_loop fuel client loads tm st2 w3 of
                       None \<Rightarrow> None
                     | Some (st3, w4, received, raised) \<Rightarrow>
                         Some (st3, w4, response # response2 # received, raised))))"
proof -
  have st': "st' = fst (fst (process_response loads tm response st w))"
    and out: "outcome = snd (fst (process_response loads tm response st w))"
    and w': "w' = snd (process_response loads tm response st w)"
    using assms(2) by simp_all
  have b: "(outcome = Break) = (function_calls_of response = [])"
    by (simp add: out process_response_break)
  have pr: "printed_text st' =
          printed_text st @ (if messages_of response = [] then [] else [output_text response])"
    if "completes outcome"
  proof -
    from that obtain rs w1 where
      "invoke_functions_from_response loads tm response w = (Inr rs, w1)"
      unfolding out process_response_completes by blast
    then show ?thesis by (simp add: st' process_response_completed(3))
  qed
  have stop: "manual_response_loop (Suc fuel) client loads tm st w0 =
          Some (st', w', [response], None)
        \<and> response_loop (Suc fuel) client loads tm response w =
            Some (Inr (output_text response), w)"
    if "function_calls_of response = []"
  proof -
    from that b have "outcome = Break" by simp
    then have "manual_response_loop (Suc fuel) client loads tm st w0 =
        Some (st', w', [response], None)"
      using manual_response_loop_Suc [where client = client and fuel = fuel, OF assms] by simp
    moreover have "response_loop (Suc fuel) client loads tm response w =
        Some (Inr (output_text response), w)"
      using that invoke_no_calls [OF that, of loads tm w] by (simp add: response_loop_body_eq)
    ultimately show ?thesis by blast
  qed
  have go: "(\<exists>results.
           invoke_functions_from_response loads tm response w = (Inr results, w')
           \<and> length results = length (function_calls_of response)
           \<and> set results \<subseteq> set (request_input (conversation_request st'))
           \<and> response_loop_body loads tm response w =
               (NextRequest \<lparr>request_input = results,
                             previous_response_id = Some (response_id response)\<rparr>, w')
           \<and> response_loop (Suc fuel) client loads tm response w =
               (let (response2, w2) =
                      client \<lparr>request_input = results,
                              previous_response_id = Some (response_id response)\<rparr> w'
                in response_loop fuel client loads tm response2 w2))
        \<and> manual_response_loop (Suc (Suc fuel)) client loads tm st w0 =
            (let (response2, w2) = client (conversation_request st') w';
                 ((st2, outcome2), w3) = process_response loads tm response2 st' w2
             in case outcome2 of
                  Break \<Rightarrow> Some (st2, w3, [response, response2], None)
                | Raised e \<Rightarrow> Some (st2, w3, [response, response2], Some e)
                | Continue \<Rightarrow>
                    (case manual_response_loop fuel client loads tm st2 w3 of
                       None \<Rightarrow> None
                     | Some (st3, w4, received, raised) \<Rightarrow>
                         Some (st3, w4, response # response2 # received, raised)))"
    if cont: "outcome = Continue"
  proof -
    from cont have "completes outcome" by simp
    from completed_pass_results [OF assms(2) this] obtain results where
      i: "invoke_functions_from_response loads tm response w = (Inr results, w')"
      and sub: "set results \<subseteq> set (appended_items st st')"
      by blast
    from cont b have calls: "function_calls_of response \<noteq> []" by auto
    have len: "length results = length (function_calls_of response)"
      using i by (rule invoke_length)
    have "conversation st' = conversation st @ appended_items st st'"
      using process_response_extends [of loads tm response st w] by (simp add: st')
    with sub have sub': "set results \<subseteq> set (request_input (conversation_request st'))"
      by (auto simp: conversation_request_def)
    have body: "response_loop_body loads tm response w =
               (NextRequest \<lparr>request_input = results,
                             previous_response_id = Some (response_id response)\<rparr>, w')"
      using i calls by (simp add: response_loop_body_eq)
    have loop1: "response_loop (Suc fuel) client loads tm response w =
               (let (response2, w2) =
                      client \<lparr>request_input = results,
                              previous_response_id = Some (response_id response)\<rparr> w'
                in response_loop fuel client loads tm response2 w2)"
      by (simp add: body)
    have loop2: "manual_response_loop (Suc (Suc fuel)) client loads tm st w0 =
            (let (response2, w2) = client (conversation_request st') w';
                 ((st2, outcome2), w3) = process_response loads tm response2 st' w2
             in case outcome2 of
                  Break \<Rightarrow> Some (st2, w3, [response, response2], None)
                | Raised e \<Rightarrow> Some (st2, w3, [response, response2], Some e)
                | Continue \<Rightarrow>
                    (case manual_response_loop fuel client loads tm st2 w3 of
                       None \<Rightarrow> None
                     | Some (st3, w4, received, raised) \<Rightarrow>
                         Some (st3, w4, response # response2 # received, raised)))"
    proof -
      obtain response2 w2 where c2: "client (conversation_request st') w' = (response2, w2)"
        by (cases "client (conversation_request st') w'")
      obtain st2 outcome2 w3 where
        p2: "process_response loads tm response2 st' w2 = ((st2, outcome2), w3)"
        by (metis prod.exhaust)
      have "manual_response_loop (Suc (Suc fuel)) client loads tm st w0 =
          (case manual_response_loop (Suc fuel) client loads tm st' w' of
             None \<Rightarrow> None
           | Some (st'', w'', received, raised) \<Rightarrow>
               Some (st'', w'', response # received, raised))"
        using manual_response_loop_Suc [where client = client and fuel = "Suc fuel", OF assms]
          cont
        by simp
      also have "\<dots> =
          (case outcome2 of
                  Break \<Rightarrow> Some (st2, w3, [response, response2], None)
                | Raised e \<Rightarrow> Some (st2, w3, [response, response2], Some e)
                | Continue \<Rightarrow>
                    (case manual_response_loop fuel client loads tm st2 w3 of
                       None \<Rightarrow> None
                     | Some (st3, w4, received, raised) \<Rightarrow>
                         Some (st3, w4, response # response2 # received, raised)))"
        using manual_response_loop_Suc [where client = client and fuel = fuel, OF c2 p2]
        by (cases outcome2) (simp_all split: option.splits)
      finally show ?thesis by (simp add: c2 p2)
    qed
    from i len sub' body loop1 loop2 show ?thesis by blast
  qed
  from b pr stop go show ?thesis by blast
qed

theorem turn_ends_without_function_calls_witness:
  "(example_client (conversation_request example_state) 0 = (call_response, 0)
    \<and> process_response example_loads example_tools call_response example_state 0 =
        ((after_call_state, Continue), Suc 0)
    \<and> response_loop_body example_loads example_tools call_response 0 =
        (NextRequest \<lparr>request_input = [FunctionCallOutput ''call_1'' ''London ID: ce863d03''],
                      previous_response_id = Some (response_id call_response)\<rparr>, Suc 0))
   \<and> (example_client (conversation_request after_call_state) (Suc 0) = (final_response, Suc 0)
    \<and> process_response example_loads example_tools final_response after_call_state (Suc 0) =
        ((final_state, Break), Suc 0)
    \<and> function_calls_of final_response = []
    \<and> manual_response_loop (Suc 0) example_client example_loads example_tools
          after_call_state (Suc 0) = Some (final_state, Suc 0, [final_response], None)
    \<and> response_loop (Suc 0) example_client example_loads example_tools final_response (Suc 0)
        = Some (Inr (output_text final_response), Suc 0))"
proof -
  have i: "invoke_functions_from_response example_loads example_tools call_response 0 =
      (Inr [FunctionCallOutput ''call_1'' ''London ID: ce863d03''], Suc 0)"
    by (simp add: call_response_def invoke_functions_from_response_def tool_output_of_def
        try_tool_def example_tools_def tool_mapping_def example_loads_def
        call_get_city_uuid_def get_city_uuid_def uuid4_def example_uuid_of_def)
  have first: "response_loop_body example_loads example_tools call_response 0 =
        (NextRequest \<lparr>request_input = [FunctionCallOutput ''call_1'' ''London ID: ce863d03''],
                      previous_response_id = Some (response_id call_response)\<rparr>, Suc 0)"
    using turn_ends_without_function_calls [where client = example_client and fuel = 0,
        OF example_client_first process_call_response] i
    by auto
  have second: "manual_response_loop (Suc 0) example_client example_loads example_tools
          after_call_state (Suc 0) = Some (final_state, Suc 0, [final_response], None)
    \<and> response_loop (Suc 0) example_client example_loads example_tools final_response (Suc 0)
        = Some (Inr (output_text final_response), Suc 0)"
    using turn_ends_without_function_calls [where client = example_client and fuel = 0,
        OF example_client_second process_final_response]
    by (simp add: function_calls_of_examples del: manual_response_loop.simps response_loop.simps)
  from first second example_client_first process_call_response example_client_second
    process_final_response
  show ?thesis by (simp add: function_calls_of_examples
      del: manual_response_loop.simps response_loop.simps)
qed

text \<open>
  Counterexample to claim C5 as stated, that no final text is given out when a tool
  call is present: on a response with function calls and a message, the pass of the
  manual loop goes on and yet has printed the message text.
\<close>

theorem printed_with_function_calls_counterexample:
  "function_calls_of mixed_response \<noteq> []
   \<and> process_response example_loads example_tools mixed_response example_state 0 =
       ((after_mixed_state, Continue), Suc 0)
   \<and> printed_text example_state = []
   \<and> printed_text after_mixed_state = [''looking up'']"
proof -
  have "printed_text example_state = []" "printed_text after_mixed_state = [''looking up'']"
    by (simp_all add: example_state_def after_mixed_state_def)
  with process_response_mixed_response show ?thesis
    by (simp add: function_calls_of_mixed_response)
qed

section \<open>A response with neither function call nor message\<close>

text \<open>
  Claim C7, as amended. The notebook has no notion of an anomaly: a response with
  neither \<open>function_call\<close> nor \<open>message\<close> items ends the turn like any response
  without function calls. The pass counts its tokens, appends its reasoning items,
  prints no message text and breaks; the loop with \<open>previous_response_id\<close> prints
  the empty \<open>output_text\<close> and breaks. Nothing is raised or reported to the caller.
\<close>

theorem no_progress_ends_turn_silently:
  assumes "function_calls_of response = []" and "messages_of response = []"
  shows "process_response loads tm response st w =
           ((st\<lparr>total_tokens_used := total_tokens_used st + usage_total_tokens response,
                conversation := conversation st @ map to_dict (reasoning_of response)\<rparr>,
             Break), w)
   \<and> response_loop_body loads tm response w = (PrintAndBreak [], w)
   \<and> (client (conversation_request st) w0 = (response, w) \<longrightarrow>
        manual_response_loop (Suc fuel) client loads tm st w0 =
          Some (st\<lparr>total_tokens_used := total_tokens_used st + usage_total_tokens response,
                   conversation := conversation st @ map to_dict (reasoning_of response)\<rparr>,
                w, [response], None))"
proof -
  have p: "process_response loads tm response st w =
           ((st\<lparr>total_tokens_used := total_tokens_used st + usage_total_tokens response,
                conversation := conversation st @ map to_dict (reasoning_of response)\<rparr>,
             Break), w)"
    using assms
    by (simp add: process_response_def function_calls_of_def messages_of_def reasoning_of_def
        Let_def)
  have "output_text response = []"
    using assms(2) by (simp add: output_text_def messages_of_def)
  then have l: "response_loop_body loads tm response w = (PrintAndBreak [], w)"
    using assms(1) invoke_no_calls [OF assms(1), of loads tm w]
    by (simp add: response_loop_body_eq)
  from p l show ?thesis by simp
qed

theorem no_progress_ends_turn_silently_witness:
  "function_calls_of reasoning_only_response = []
   \<and> messages_of reasoning_only_response = []
   \<and> silent_client (conversation_request example_state) 0 = (reasoning_only_response, 0)
   \<and> response_loop_body example_loads example_tools reasoning_only_response 0 =
       (PrintAndBreak [], 0)
   \<and> manual_response_loop (Suc 0) silent_client example_loads example_tools example_state 0 =
       Some (example_state
               \<lparr>total_tokens_used :=
                  total_tokens_used example_state + usage_total_tokens reasoning_only_response,
                conversation :=
                  conversation example_state @ map to_dict (reasoning_of reasoning_only_response)\<rparr>,
             0, [reasoning_only_response], None)"
proof -
  have c: "silent_client (conversation_request example_state) 0 = (reasoning_only_response, 0)"
    by (simp add: silent_client_def)
  from no_progress_ends_turn_silently [where client = silent_client and fuel = 0
      and loads = example_loads and tm = example_tools and st = example_state and w = 0
      and ?w0.0 = 0 and response = reasoning_only_response] c
  show ?thesis by (simp add: function_calls_of_examples del: manual_response_loop.simps)
qed

text \<open>
  Counterexample to claim C7 as stated, that such a response is surfaced as an anomaly
  instead of ending the turn silently: on a response that holds only a reasoning item
  both loops end normally, with nothing printed by the manual loop.
\<close>

theorem no_progress_counterexample:
  "function_calls_of reasoning_only_response = []
   \<and> messages_of reasoning_only_response = []
   \<and> manual_response_loop (Suc 0) silent_client example_loads example_tools example_state 0 =
       Some (\<lparr>conversation =
                 [UserMessage ''get id for city London'',
                  ItemDict (ReasoningItem ''rs_9'' [''thinking''])],
               total_tokens_used = 64, printed_text = []\<rparr>,
             0, [reasoning_only_response], None)
   \<and> response_loop (Suc 0) silent_client example_loads example_tools reasoning_only_response 0 =
       Some (Inr [], 0)"
  by (simp add: function_calls_of_def messages_of_def silent_client_def process_response_def
      reasoning_only_response_def example_state_def to_dict_def response_loop_body_def
      invoke_functions_from_response_def output_text_def)

section \<open>Running a pass twice\<close>

text \<open>
  Claim C8, as amended. Two runs of a pass over the same conversation, response and
  registry that both complete append sequences that agree in everything but the
  output strings of the tool results: the same items in the same order, with the same
  \<open>call_id\<close>s, and they end the same way. Whether a run breaks is the same in both
  runs in any case. The two runs leave the same state and end the same way when the
  tools of the registry answer by their arguments alone.
\<close>

theorem replay_up_to_tool_outputs:
  "(completes (snd (fst (process_response loads tm response st w1)))
    \<and> completes (snd (fst (process_response loads tm response st w2))) \<longrightarrow>
      map erase_output
        (appended_items st (fst (fst (process_response loads tm response st w1)))) =
      map erase_output
        (appended_items st (fst (fst (process_response loads tm response st w2))))
      \<and> snd (fst (process_response loads tm response st w1)) =
         snd (fst (process_response loads tm response st w2)))
   \<and> (snd (fst (process_response loads tm response st w1)) = Break) =
       (snd (fst (process_response loads tm response st w2)) = Break)
   \<and> (world_independent tm \<longrightarrow>
        fst (process_response loads tm response st w1) =
        fst (process_response loads tm response st w2))"
proof -
  let ?cs = "function_calls_of response"
  have a: "map erase_output
        (appended_items st (fst (fst (process_response loads tm response st w1)))) =
      map erase_output
        (appended_items st (fst (fst (process_response loads tm response st w2))))
      \<and> snd (fst (process_response loads tm response st w1)) =
         snd (fst (process_response loads tm response st w2))"
    if c1: "completes (snd (fst (process_response loads tm response st w1)))"
      and c2: "completes (snd (fst (process_response loads tm response st w2)))"
  proof -
    from c1 obtain rs1 v1 where
      i1: "invoke_functions_from_response loads tm response w1 = (Inr rs1, v1)"
      unfolding process_response_completes by blast
    from c2 obtain rs2 v2 where
      i2: "invoke_functions_from_response loads tm response w2 = (Inr rs2, v2)"
      unfolding process_response_completes by blast
    have e: "map erase_output rs1 = map erase_output rs2"
      using i1 i2 erase_resolve [of loads tm ?cs w1 rs1 v1] erase_resolve [of loads tm ?cs w2 rs2 v2]
      by (simp add: invoke_resolve)
    have l1: "length ?cs = length rs1" using invoke_length [OF i1] by simp
    have l2: "length ?cs = length rs2" using invoke_length [OF i2] by simp
    have "map erase_output (concat (map (\<lambda>(c, r). [to_dict c, r]) (zip ?cs rs1))) =
          map erase_output (concat (map (\<lambda>(c, r). [to_dict c, r]) (zip ?cs rs2)))"
      using l1 l2 e by (rule erase_interleaved)
    then have "map erase_output
        (appended_items st (fst (fst (process_response loads tm response st w1)))) =
      map erase_output
        (appended_items st (fst (fst (process_response loads tm response st w2))))"
      by (simp only: appended_items_completed [OF i1] appended_items_completed [OF i2] map_append)
    moreover have "snd (fst (process_response loads tm response st w1)) =
         snd (fst (process_response loads tm response st w2))"
      by (simp only: process_response_completed(2) [OF i1] process_response_completed(2) [OF i2])
    ultimately show ?thesis by blast
  qed
  have b: "(snd (fst (process_response loads tm response st w1)) = Break) =
       (snd (fst (process_response loads tm response st w2)) = Break)"
    by (simp only: process_response_break)
  have c: "fst (process_response loads tm response st w1) =
        fst (process_response loads tm response st w2)"
    if "world_independent tm"
    using resolve_in_order_independent [OF that, of loads ?cs w1 w2]
    by (intro process_response_depends_on_results) (simp add: invoke_resolve)
  from a b c show ?thesis by blast
qed

theorem replay_up_to_tool_outputs_witness:
  "world_independent fixed_tools
   \<and> process_response example_loads fixed_tools call_response example_state 0 =
       ((example_state
           \<lparr>conversation :=
              [UserMessage ''get id for city London'',
               ItemDict (ReasoningItem ''rs_1'' []),
               ItemDict (FunctionToolCall ''{city: London}'' ''call_1'' ''get_city_uuid'' ''fc_1''),
               FunctionCallOutput ''call_1'' ''London ID: 0000''],
            total_tokens_used := 198\<rparr>, Continue), 0)
   \<and> fst (process_response example_loads fixed_tools call_response example_state 7) =
       fst (process_response example_loads fixed_tools call_response example_state 0)"
proof -
  have p: "process_response example_loads fixed_tools call_response example_state 0 =
       ((example_state
           \<lparr>conversation :=
              [UserMessage ''get id for city London'',
               ItemDict (ReasoningItem ''rs_1'' []),
               ItemDict (FunctionToolCall ''{city: London}'' ''call_1'' ''get_city_uuid'' ''fc_1''),
               FunctionCallOutput ''call_1'' ''London ID: 0000''],
            total_tokens_used := 198\<rparr>, Continue), 0)"
    by (simp add: process_response_def call_response_def example_state_def
        invoke_functions_from_response_def tool_output_of_def try_tool_def
        fixed_tools_def fixed_tool_def example_loads_def to_dict_def output_text_def)
  from replay_up_to_tool_outputs [of example_loads fixed_tools call_response example_state 7 0]
    world_independent_fixed_tools p
  show ?thesis by simp
qed

text \<open>
  Counterexample to claim C8 as stated, that the appended sequence is the same in both
  runs: with the notebook's own registry, \<open>get_city_uuid\<close> draws a new identifier
  at each call, so the second run, made in the world the first one left, appends
  another output.
\<close>

theorem replay_counterexample:
  "appended_items example_state
     (fst (fst (process_response example_loads (tool_mapping example_uuid_of) call_response
                  example_state 0)))
   \<noteq> appended_items example_state
     (fst (fst (process_response example_loads (tool_mapping example_uuid_of) call_response
                  example_state
                  (snd (process_response example_loads (tool_mapping example_uuid_of)
                          call_response example_state 0)))))"
  by (simp add: appended_items_def process_response_def call_response_def example_state_def
      invoke_functions_from_response_def tool_output_of_def try_tool_def
      tool_mapping_def example_loads_def call_get_city_uuid_def
      get_city_uuid_def uuid4_def example_uuid_of_def to_dict_def output_text_def)

section \<open>The token counter\<close>

text \<open>
  Claim C10. Each pass adds the \<open>usage.total_tokens\<close> of its response to
  \<open>total_tokens_used\<close>, so the counter does not decrease when that number is not
  negative. When the response loop of a user message ends, the counter has grown by
  the sum over the responses received in it; when the whole orchestration ends, the
  counter, which starts at 0, is the sum over all responses received, those of passes
  that required tool calls included.
\<close>

theorem token_accounting:
  "total_tokens_used (fst (fst (process_response loads tm response st w))) =
     total_tokens_used st + usage_total_tokens response
   \<and> (0 \<le> usage_total_tokens response \<longrightarrow>
        total_tokens_used st
          \<le> total_tokens_used (fst (fst (process_response loads tm response st w))))
   \<and> (\<forall>st' w' received raised.
        manual_response_loop fuel client loads tm st w = Some (st', w', received, raised) \<longrightarrow>
        total_tokens_used st' =
          total_tokens_used st + sum_list (map usage_total_tokens received)
        \<and> ((\<forall>r \<in> set received. 0 \<le> usage_total_tokens r) \<longrightarrow>
             total_tokens_used st \<le> total_tokens_used st'))
   \<and> (\<forall>st' w' received raised.
        manual_orchestration fuel client loads tm user_messages w =
          Some (st', w', received, raised) \<longrightarrow>
        total_tokens_used st' = sum_list (map usage_total_tokens received))"
proof -
  have a: "total_tokens_used (fst (fst (process_response loads tm response st w))) =
     total_tokens_used st + usage_total_tokens response"
    by (rule process_response_tokens)
  have c: "total_tokens_used st' =
          total_tokens_used st + sum_list (map usage_total_tokens received)
        \<and> ((\<forall>r \<in> set received. 0 \<le> usage_total_tokens r) \<longrightarrow>
             total_tokens_used st \<le> total_tokens_used st')"
    if l: "manual_response_loop fuel client loads tm st w = Some (st', w', received, raised)"
    for st' w' received raised
  proof -
    have "0 \<le> sum_list (map usage_total_tokens received)"
      if "\<forall>r \<in> set received. 0 \<le> usage_total_tokens r"
      using that by (induction received) simp_all
    with manual_response_loop_tokens [OF l] show ?thesis by auto
  qed
  have d: "total_tokens_used st' = sum_list (map usage_total_tokens received)"
    if "manual_orchestration fuel client loads tm user_messages w =
          Some (st', w', received, raised)"
    for st' w' received raised
    using user_messages_loop_tokens [of fuel client loads tm user_messages initial_state w
        st' w' received raised] that
    by (simp add: manual_orchestration_def initial_state_def)
  from a c d show ?thesis by auto
qed

theorem token_accounting_witness:
  "(0::int) \<le> usage_total_tokens call_response
   \<and> total_tokens_used example_state
       \<le> total_tokens_used
           (fst (fst (process_response example_loads example_tools call_response
                        example_state 0)))
   \<and> manual_orchestration (Suc (Suc 0)) example_client example_loads example_tools
        [''get id for city London''] 0 =
          Some (final_state, Suc 0, [call_response, final_response], None)
   \<and> total_tokens_used final_state =
       sum_list (map usage_total_tokens [call_response, final_response])"
  using token_accounting [of example_loads example_tools call_response example_state 0
      "Suc (Suc 0)" example_client "[''get id for city London'']"]
    manual_orchestration_example
  by (simp add: call_response_def)

end
